theory Spec2Isabelle
  imports Complex_Main "HOL-Library.Char_ord" "HOL-Library.List_Lexorder"
begin

unbundle bit_operations_syntax

section \<open>Python values and canonical JSON serialisation\<close>

text \<open>
  The ledger of \<^verbatim>\<open>audit/core.py\<close> stores Python dictionaries. A Python value is
  modelled by \<open>pyval\<close>. A \<^verbatim>\<open>str\<close> is modelled by its UTF-8 encoding (a \<open>string\<close> is a
  list of bytes), dictionaries have distinct \<^verbatim>\<open>str\<close> keys and keep insertion order, a
  float is the rational it denotes, and \<open>PObject\<close> stands for any object that \<^verbatim>\<open>json\<close> cannot
  serialise (a \<^verbatim>\<open>datetime\<close>, a \<^verbatim>\<open>set\<close>, \<^verbatim>\<open>bytes\<close>, ...).
\<close>

datatype pyval =
    PNone
  | PBool bool
  | PInt int
  | PFloat rat
  | PStr string
  | PList "pyval list"
  | PDict "(string \<times> pyval) list"
  | PObject nat

type_synonym pydict = "(string \<times> pyval) list"

datatype exn =
    TypeError
  | KeyError string
  | ValueError string
  | OSError
  | FileNotFoundError
  | FileExistsError
  | IsADirectoryError
  | NotADirectoryError
  | JSONDecodeError
  | BadGzipFile
  | Exception string
  | AppendFailed exn

text \<open>\<^verbatim>\<open>d.get(k)\<close>, \<^verbatim>\<open>k in d\<close> and \<^verbatim>\<open>del d[k]\<close> on a dictionary.\<close>

definition dict_get :: "pydict \<Rightarrow> string \<Rightarrow> pyval option" where
  "dict_get d k = map_of d k"

definition dict_del :: "pydict \<Rightarrow> string \<Rightarrow> pydict" where
  "dict_del d k = filter (\<lambda>kv. fst kv \<noteq> k) d"

text \<open>Decimal text of an integer, as \<^verbatim>\<open>int.__repr__\<close> prints it.\<close>

definition digit_char :: "nat \<Rightarrow> char" where
  "digit_char n = ''0123456789abcdef'' ! n"

fun show_nat :: "nat \<Rightarrow> string" where
  "show_nat n = (if n < 10 then [digit_char n] else show_nat (n div 10) @ [digit_char (n mod 10)])"

declare show_nat.simps [simp del]

definition show_int :: "int \<Rightarrow> string" where
  "show_int i = (if i < 0 then CHR ''-'' # show_nat (nat (- i)) else show_nat (nat i))"

text \<open>
  String escaping of \<^verbatim>\<open>json.dumps(..., ensure_ascii=False)\<close>: the quote, the backslash
  and the control characters below 0x20 are escaped, every other byte is copied.
\<close>

definition json_escape :: "char \<Rightarrow> string" where
  "json_escape c =
     (if c = CHR 0x22 then [CHR 0x5C, CHR 0x22]
      else if c = CHR 0x5C then [CHR 0x5C, CHR 0x5C]
      else if c = CHR 0x0A then [CHR 0x5C, CHR ''n'']
      else if c = CHR 0x0D then [CHR 0x5C, CHR ''r'']
      else if c = CHR 0x09 then [CHR 0x5C, CHR ''t'']
      else if c = CHR 0x08 then [CHR 0x5C, CHR ''b'']
      else if c = CHR 0x0C then [CHR 0x5C, CHR ''f'']
      else if (of_char c :: nat) < 32
        then [CHR 0x5C, CHR ''u'', CHR ''0'', CHR ''0'',
              digit_char ((of_char c :: nat) div 16), digit_char ((of_char c :: nat) mod 16)]
      else [c])"

definition json_string :: "string \<Rightarrow> string" where
  "json_string s = CHR 0x22 # concat (map json_escape s) @ [CHR 0x22]"

fun join :: "string \<Rightarrow> string list \<Rightarrow> string" where
  "join sep [] = []"
| "join sep [x] = x"
| "join sep (x # y # ys) = x @ sep @ join sep (y # ys)"

text \<open>
  \<^verbatim>\<open>json.dumps(v, sort_keys=True, ensure_ascii=False)\<close> with the default separators.
  \<open>None\<close> is the \<^verbatim>\<open>TypeError\<close> that \<^verbatim>\<open>json\<close> raises on an object it cannot serialise.
  The parameter \<open>so\<close> is Python's \<^verbatim>\<open>str()\<close> on values that are not \<^verbatim>\<open>str\<close>; it gives a
  float its text (\<^verbatim>\<open>float.__repr__\<close>).
\<close>

fun those_list :: "'a option list \<Rightarrow> 'a list option" where
  "those_list [] = Some []"
| "those_list (None # xs) = None"
| "those_list (Some x # xs) = (case those_list xs of None \<Rightarrow> None | Some ys \<Rightarrow> Some (x # ys))"

fun dumps :: "(pyval \<Rightarrow> string) \<Rightarrow> pyval \<Rightarrow> string option" where
  "dumps so PNone = Some ''null''"
| "dumps so (PBool b) = Some (if b then ''true'' else ''false'')"
| "dumps so (PInt i) = Some (show_int i)"
| "dumps so (PFloat r) = Some (so (PFloat r))"
| "dumps so (PStr s) = Some (json_string s)"
| "dumps so (PList xs) =
     (case those_list (map (dumps so) xs) of
        None \<Rightarrow> None
      | Some ts \<Rightarrow> Some (''['' @ join '', '' ts @ '']''))"
| "dumps so (PDict kvs) =
     (case those_list (map (\<lambda>kv. map_option (Pair (fst kv)) (dumps so (snd kv))) kvs) of
        None \<Rightarrow> None
      | Some ps \<Rightarrow>
          Some (''{'' @ join '', '' (map (\<lambda>p. json_string (fst p) @ '': '' @ snd p) (sort_key fst ps))
                @ ''}''))"
| "dumps so (PObject n) = None"

section \<open>SHA-256\<close>

text \<open>
  \<^verbatim>\<open>hashlib.sha256(b).hexdigest()\<close>, following FIPS 180-4. A 32-bit word is a natural
  number below \<open>2^32\<close>; addition wraps around explicitly.
\<close>

definition add32 :: "nat \<Rightarrow> nat \<Rightarrow> nat" where
  "add32 x y = (x + y) mod 4294967296"

definition rotr :: "nat \<Rightarrow> nat \<Rightarrow> nat" where
  "rotr n x = x div 2 ^ n + (x mod 2 ^ n) * 2 ^ (32 - n)"

definition shr :: "nat \<Rightarrow> nat \<Rightarrow> nat" where
  "shr n x = x div 2 ^ n"

definition Ch :: "nat \<Rightarrow> nat \<Rightarrow> nat \<Rightarrow> nat" where
  "Ch x y z = (x AND y) XOR ((4294967295 - x) AND z)"

definition Maj :: "nat \<Rightarrow> nat \<Rightarrow> nat \<Rightarrow> nat" where
  "Maj x y z = (x AND y) XOR (x AND z) XOR (y AND z)"

definition bsig0 :: "nat \<Rightarrow> nat" where
  "bsig0 x = rotr 2 x XOR rotr 13 x XOR rotr 22 x"

definition bsig1 :: "nat \<Rightarrow> nat" where
  "bsig1 x = rotr 6 x XOR rotr 11 x XOR rotr 25 x"

definition ssig0 :: "nat \<Rightarrow> nat" where
  "ssig0 x = rotr 7 x XOR rotr 18 x XOR shr 3 x"

definition ssig1 :: "nat \<Rightarrow> nat" where
  "ssig1 x = rotr 17 x XOR rotr 19 x XOR shr 10 x"

text \<open>The round constants and the initial hash value, in decimal.\<close>

definition K256 :: "nat list" where
  "K256 = [
   1116352408, 1899447441, 3049323471, 3921009573, 961987163, 1508970993, 2453635748, 2870763221,
   3624381080, 310598401, 607225278, 1426881987, 1925078388, 2162078206, 2614888103, 3248222580,
   3835390401, 4022224774, 264347078, 604807628, 770255983, 1249150122, 1555081692, 1996064986,
   2554220882, 2821834349, 2952996808, 3210313671, 3336571891, 3584528711, 113926993, 338241895,
   666307205, 773529912, 1294757372, 1396182291, 1695183700, 1986661051, 2177026350, 2456956037,
   2730485921, 2820302411, 3259730800, 3345764771, 3516065817, 3600352804, 4094571909, 275423344,
   430227734, 506948616, 659060556, 883997877, 958139571, 1322822218, 1537002063, 1747873779,
   1955562222, 2024104815, 2227730452, 2361852424, 2428436474, 2756734187, 3204031479, 3329325298]"

definition H256 :: "nat list" where
  "H256 = [1779033703, 3144134277, 1013904242, 2773480762,
           1359893119, 2600822924, 528734635, 1541459225]"

text \<open>The message schedule: one word per round constant, over a window of sixteen words.\<close>

fun expand :: "'a list \<Rightarrow> nat list \<Rightarrow> nat list" where
  "expand (_ # ks) [w0, w1, w2, w3, w4, w5, w6, w7, w8, w9, w10, w11, w12, w13, w14, w15] =
     w0 # expand ks [w1, w2, w3, w4, w5, w6, w7, w8, w9, w10, w11, w12, w13, w14, w15,
        add32 (add32 (add32 (ssig1 w14) w9) (ssig0 w1)) w0]"
| "expand _ _ = []"

fun sha_round :: "nat list \<Rightarrow> nat \<times> nat \<Rightarrow> nat list" where
  "sha_round [a, b, c, d, e, f, g, h] (k, w) =
     (let t1 = add32 (add32 (add32 (add32 h (bsig1 e)) (Ch e f g)) k) w;
          t2 = add32 (bsig0 a) (Maj a b c)
      in [add32 t1 t2, a, b, c, add32 d t1, e, f, g])"
| "sha_round s _ = s"

definition compress :: "nat list \<Rightarrow> nat list \<Rightarrow> nat list" where
  "compress hs block = map2 add32 hs (foldl sha_round hs (zip K256 (expand K256 block)))"

fun be_words :: "nat list \<Rightarrow> nat list" where
  "be_words (a # b # c # d # bs) = (((a * 256 + b) * 256 + c) * 256 + d) # be_words bs"
| "be_words _ = []"

definition be_bytes8 :: "nat \<Rightarrow> nat list" where
  "be_bytes8 n = [n div 72057594037927936 mod 256, n div 281474976710656 mod 256,
                  n div 1099511627776 mod 256, n div 4294967296 mod 256,
                  n div 16777216 mod 256, n div 65536 mod 256, n div 256 mod 256, n mod 256]"

definition pad :: "nat list \<Rightarrow> nat list" where
  "pad bs = bs @ [128] @ replicate ((119 - length bs mod 64) mod 64) 0 @ be_bytes8 (8 * length bs)"

fun blocks :: "nat list \<Rightarrow> nat list list" where
  "blocks (w0 # w1 # w2 # w3 # w4 # w5 # w6 # w7 # w8 # w9 # w10 # w11 # w12 # w13 # w14 # w15 # ws) =
     [w0, w1, w2, w3, w4, w5, w6, w7, w8, w9, w10, w11, w12, w13, w14, w15] # blocks ws"
| "blocks _ = []"

definition hex_word :: "nat \<Rightarrow> string" where
  "hex_word n = [digit_char (n div 268435456 mod 16), digit_char (n div 16777216 mod 16),
                 digit_char (n div 1048576 mod 16), digit_char (n div 65536 mod 16),
                 digit_char (n div 4096 mod 16), digit_char (n div 256 mod 16),
                 digit_char (n div 16 mod 16), digit_char (n mod 16)]"

definition sha256 :: "string \<Rightarrow> string" where
  "sha256 s = concat (map hex_word (foldl compress H256 (blocks (be_words (pad (map of_char s))))))"

section \<open>The hash-chained ledger (audit/core.py)\<close>

text \<open>
  One chain entry: the dictionary \<^verbatim>\<open>complete_entry\<close> that \<^verbatim>\<open>append_entry\<close> builds.
  The fields \<^verbatim>\<open>hash\<close> and \<^verbatim>\<open>previous_hash\<close> hold a \<^verbatim>\<open>str\<close> or \<^verbatim>\<open>None\<close>. A chain
  loaded from disk is taken to hold entries of this shape; what may differ from an
  appended chain is the content of the fields.
\<close>

record entry =
  entry_id :: string
  data :: pydict
  timestamp :: string
  timestamp_hijri :: string
  previous_hash :: "string option"
  hash :: "string option"
  chain_position :: int
  retention_until :: string

definition opt_str :: "string option \<Rightarrow> pyval" where
  "opt_str h = (case h of None \<Rightarrow> PNone | Some s \<Rightarrow> PStr s)"

text \<open>The entry as the dictionary the code holds, keys in the order of the source.\<close>

definition entry_dict :: "entry \<Rightarrow> pydict" where
  "entry_dict e =
     [(''id'', PStr (entry_id e)),
      (''data'', PDict (data e)),
      (''timestamp'', PStr (timestamp e)),
      (''timestamp_hijri'', PStr (timestamp_hijri e)),
      (''previous_hash'', opt_str (previous_hash e)),
      (''hash'', opt_str (hash e)),
      (''chain_position'', PInt (chain_position e)),
      (''retention_until'', PStr (retention_until e))]"

text \<open>One record of \<^verbatim>\<open>corrupted_entries\<close>.\<close>

datatype corruption =
    HashMismatch (position: nat) string string "string option"
  | LinkBroken (position: nat) string

record corruption_report =
  detected_at :: string
  corrupted_count :: nat
  total_entries :: nat
  corruption_entries :: "corruption list"

text \<open>
  The state of a \<^verbatim>\<open>HashChainedLedger\<close>: the chain, the id index, the flag
  \<^verbatim>\<open>_corruption_checks_enabled\<close>, and the corruption reports written under \<^verbatim>\<open>data_dir\<close>
  (file name and content).
\<close>

record ledger =
  chain :: "entry list"
  chain_index :: "string \<rightharpoonup> nat"
  corruption_checks_enabled :: bool
  corruption_files :: "(string \<times> corruption_report) list"

definition genesis_hash :: string where
  "genesis_hash = ''SAUDI_AI_AUDIT_GENESIS_2024''"

definition max_verification_time_ms :: rat where
  "max_verification_time_ms = 3000"

text \<open>\<^verbatim>\<open>HashChainedLedger.__init__\<close> when no chain file exists.\<close>

definition new_ledger :: ledger where
  "new_ledger = \<lparr>chain = [], chain_index = Map.empty,
                  corruption_checks_enabled = True, corruption_files = []\<rparr>"

text \<open>
  What one call of \<^verbatim>\<open>append_entry\<close> reads from the clock: the \<^verbatim>\<open>strftime\<close> stamp of
  \<^verbatim>\<open>_generate_entry_id\<close>, the ISO text of \<^verbatim>\<open>datetime.now()\<close>, the result of
  \<^verbatim>\<open>get_hijri_date()\<close> and the ISO text of the retention deadline.
\<close>

record append_env =
  id_stamp :: string
  now_iso :: string
  hijri_date :: string
  retention_iso :: string

text \<open>Formatting a value inside an f-string: a \<^verbatim>\<open>str\<close> is copied, anything else goes through \<^verbatim>\<open>str()\<close>.\<close>

definition fmt :: "(pyval \<Rightarrow> string) \<Rightarrow> pyval \<Rightarrow> string" where
  "fmt so v = (case v of PStr s \<Rightarrow> s | _ \<Rightarrow> so v)"

definition generate_entry_id :: "(pyval \<Rightarrow> string) \<Rightarrow> append_env \<Rightarrow> pydict \<Rightarrow> string" where
  "generate_entry_id so env entry_data =
     (let user_id = (case dict_get entry_data ''user_id'' of None \<Rightarrow> PStr ''SYSTEM'' | Some v \<Rightarrow> v);
          decision_type = (case dict_get entry_data ''decision_type'' of
                             None \<Rightarrow> PStr ''UNKNOWN'' | Some v \<Rightarrow> v)
      in fmt so decision_type @ ''_'' @ fmt so user_id @ ''_'' @ id_stamp env)"

definition get_latest_hash :: "ledger \<Rightarrow> string option" where
  "get_latest_hash L = (if chain L = [] then Some genesis_hash else hash (last (chain L)))"

text \<open>
  \<^verbatim>\<open>_calculate_hash(entry, exclude_hash)\<close>: copy the dictionary, drop the key
  \<^verbatim>\<open>"hash"\<close> when asked to, serialise with sorted keys, hash the UTF-8 bytes.
\<close>

definition calculate_hash :: "(pyval \<Rightarrow> string) \<Rightarrow> pydict \<Rightarrow> bool \<Rightarrow> exn + string" where
  "calculate_hash so entry exclude_hash =
     (let entry_copy = (if exclude_hash \<and> dict_get entry ''hash'' \<noteq> None
                        then dict_del entry ''hash'' else entry)
      in case dumps so (PDict entry_copy) of
           None \<Rightarrow> Inl TypeError
         | Some entry_json \<Rightarrow> Inr (sha256 entry_json))"

text \<open>
  \<^verbatim>\<open>append_entry\<close>. Any exception raised in the body is caught and raised again as the
  generic \<^verbatim>\<open>Exception("Chain append failed ...")\<close>, here \<open>AppendFailed\<close>. The background
  backup task that the method may schedule does not touch the chain or the index and is
  left out.
\<close>

definition append_entry ::
  "(pyval \<Rightarrow> string) \<Rightarrow> append_env \<Rightarrow> pydict \<Rightarrow> ledger \<Rightarrow> (exn + string) \<times> ledger" where
  "append_entry so env entry_data L =
     (let eid = generate_entry_id so env entry_data;
          prev = get_latest_hash L;
          complete_entry = \<lparr>entry_id = eid, data = entry_data, timestamp = now_iso env,
                            timestamp_hijri = hijri_date env, previous_hash = prev,
                            hash = None, chain_position = int (length (chain L)),
                            retention_until = retention_iso env\<rparr>
      in case calculate_hash so (entry_dict complete_entry) False of
           Inl x \<Rightarrow> (Inl (AppendFailed x), L)
         | Inr h \<Rightarrow>
             (Inr eid, L\<lparr>chain := chain L @ [complete_entry\<lparr>hash := Some h\<rparr>],
                         chain_index := (chain_index L)(eid \<mapsto> length (chain L))\<rparr>))"

text \<open>
  Successive calls of \<^verbatim>\<open>append_entry\<close>, one clock reading and payload per call; a call
  that raises leaves the state to the next call.
\<close>

fun append_all :: "(pyval \<Rightarrow> string) \<Rightarrow> (append_env \<times> pydict) list \<Rightarrow> ledger \<Rightarrow> ledger" where
  "append_all so [] L = L"
| "append_all so (c # cs) L = append_all so cs (snd (append_entry so (fst c) (snd c) L))"

text \<open>
  The result of \<^verbatim>\<open>verify_chain_integrity\<close>: the full result, the partial result of a
  timeout, or the result of the \<^verbatim>\<open>except\<close> branch.
\<close>

datatype verify_result =
    Verified bool nat rat "corruption list"
  | VerifyTimeout nat
  | VerifyError exn

fun valid :: "verify_result \<Rightarrow> bool" where
  "valid (Verified b n s cs) = b"
| "valid (VerifyTimeout n) = False"
| "valid (VerifyError x) = False"

fun integrity_score :: "verify_result \<Rightarrow> rat option" where
  "integrity_score (Verified b n s cs) = Some s"
| "integrity_score _ = None"

fun corrupted_entries :: "verify_result \<Rightarrow> corruption list" where
  "corrupted_entries (Verified b n s cs) = cs"
| "corrupted_entries _ = []"

text \<open>
  What one call of \<^verbatim>\<open>verify_chain_integrity\<close> reads from its environment: the elapsed
  milliseconds measured after entry \<open>i\<close>, the stamp of the report file, and whether
  writing the report file succeeds.
\<close>

record verify_env =
  elapsed_ms :: "nat \<Rightarrow> rat"
  report_stamp :: string
  report_write_ok :: bool

datatype loop_result =
    LoopDone "corruption list"
  | LoopTimeout nat
  | LoopRaised exn

text \<open>
  The loop of \<^verbatim>\<open>verify_chain_integrity\<close>: \<open>i\<close> is the index, \<open>prev\<close> the entry before
  (none at index 0), \<open>acc\<close> the records collected so far.
\<close>

fun verify_loop ::
  "(pyval \<Rightarrow> string) \<Rightarrow> (nat \<Rightarrow> rat) \<Rightarrow> nat \<Rightarrow> entry option \<Rightarrow> entry list \<Rightarrow> corruption list
     \<Rightarrow> loop_result" where
  "verify_loop so el i prev [] acc = LoopDone acc"
| "verify_loop so el i prev (e # es) acc =
     (case calculate_hash so (entry_dict e) True of
        Inl x \<Rightarrow> LoopRaised x
      | Inr expected_hash \<Rightarrow>
          (let acc1 = (if hash e \<noteq> Some expected_hash
                       then acc @ [HashMismatch i (entry_id e) expected_hash (hash e)] else acc);
               acc2 = (case prev of
                         None \<Rightarrow> acc1
                       | Some previous_entry \<Rightarrow>
                           if previous_hash e \<noteq> hash previous_entry
                           then acc1 @ [LinkBroken i (entry_id e)] else acc1)
           in if el i > max_verification_time_ms then LoopTimeout (i + 1)
              else verify_loop so el (Suc i) (Some e) es acc2))"

text \<open>
  \<^verbatim>\<open>_handle_corruption\<close>: write the report file, then clear the flag. A failing write
  raises before the flag is touched.
\<close>

definition handle_corruption :: "verify_env \<Rightarrow> corruption list \<Rightarrow> ledger \<Rightarrow> exn + ledger" where
  "handle_corruption venv cs L =
     (let details = \<lparr>detected_at = report_stamp venv, corrupted_count = length cs,
                     total_entries = length (chain L), corruption_entries = cs\<rparr>
      in if report_write_ok venv
         then Inr (L\<lparr>corruption_files :=
                        corruption_files L @ [(''corruption_report_'' @ report_stamp venv @ ''.json'', details)],
                     corruption_checks_enabled := False\<rparr>)
         else Inl OSError)"

definition verify_chain_integrity ::
  "(pyval \<Rightarrow> string) \<Rightarrow> verify_env \<Rightarrow> ledger \<Rightarrow> verify_result \<times> ledger" where
  "verify_chain_integrity so venv L =
     (if chain L = [] then (Verified True 0 1 [], L)
      else case verify_loop so (elapsed_ms venv) 0 None (chain L) [] of
             LoopRaised x \<Rightarrow> (VerifyError x, L)
           | LoopTimeout n \<Rightarrow> (VerifyTimeout n, L)
           | LoopDone cs \<Rightarrow>
               (let result = Verified (cs = []) (length (chain L))
                               (1 - of_nat (length cs) / of_nat (length (chain L))) cs
                in if cs \<noteq> []
                   then (case handle_corruption venv cs L of
                           Inl x \<Rightarrow> (VerifyError x, L)
                         | Inr L' \<Rightarrow> (result, L'))
                   else (result, L)))"

text \<open>
  \<^verbatim>\<open>verify_range\<close>. \<open>parse\<close> is \<^verbatim>\<open>datetime.fromisoformat\<close>, a point in time being an
  integer count of microseconds and \<open>None\<close> its \<^verbatim>\<open>ValueError\<close>. The method has no
  \<^verbatim>\<open>try\<close>: an exception leaves it.
\<close>

datatype range_corruption = RangeMismatch string string string "string option"

record range_result =
  range_valid :: bool
  range_entries_count :: nat
  range_integrity_score :: rat
  range_corrupted_entries :: "range_corruption list"

fun matching_loop ::
  "(string \<Rightarrow> int option) \<Rightarrow> int \<Rightarrow> int \<Rightarrow> string option \<Rightarrow> entry list \<Rightarrow> entry list
     \<Rightarrow> exn + entry list" where
  "matching_loop parse start_date end_date decision_type [] matching = Inr matching"
| "matching_loop parse start_date end_date decision_type (e # es) matching =
     (case parse (timestamp e) of
        None \<Rightarrow> Inl (ValueError ''Invalid isoformat string'')
      | Some entry_date \<Rightarrow>
          matching_loop parse start_date end_date decision_type es
            (if start_date \<le> entry_date \<and> entry_date \<le> end_date
             then (if decision_type = None
                      \<or> map_option PStr decision_type = dict_get (data e) ''decision_type''
                   then matching @ [e] else matching)
             else matching))"

fun range_loop ::
  "(pyval \<Rightarrow> string) \<Rightarrow> entry list \<Rightarrow> range_corruption list \<Rightarrow> exn + range_corruption list" where
  "range_loop so [] acc = Inr acc"
| "range_loop so (e # es) acc =
     (case calculate_hash so (entry_dict e) True of
        Inl x \<Rightarrow> Inl x
      | Inr expected_hash \<Rightarrow>
          range_loop so es
            (if hash e \<noteq> Some expected_hash
             then acc @ [RangeMismatch (entry_id e) (timestamp e) expected_hash (hash e)]
             else acc))"

definition verify_range ::
  "(pyval \<Rightarrow> string) \<Rightarrow> (string \<Rightarrow> int option) \<Rightarrow> int \<Rightarrow> int \<Rightarrow> string option \<Rightarrow> ledger
     \<Rightarrow> exn + range_result" where
  "verify_range so parse start_date end_date decision_type L =
     (case matching_loop parse start_date end_date decision_type (chain L) [] of
        Inl x \<Rightarrow> Inl x
      | Inr matching_entries \<Rightarrow>
          (case range_loop so matching_entries [] of
             Inl x \<Rightarrow> Inl x
           | Inr corrupted \<Rightarrow>
               Inr \<lparr>range_valid = (corrupted = []),
                    range_entries_count = length matching_entries,
                    range_integrity_score =
                      1 - of_nat (length corrupted) / of_nat (max (length matching_entries) 1),
                    range_corrupted_entries = corrupted\<rparr>))"

text \<open>
  \<^verbatim>\<open>log_bias_alert\<close>. The dictionary literal is evaluated key by key, so the subscript
  \<^verbatim>\<open>bias_result["confidence"]\<close> and the comparison with \<^verbatim>\<open>0.8\<close> run before
  \<^verbatim>\<open>append_entry\<close> is called; neither exception is caught. The float \<^verbatim>\<open>0.8\<close> denotes
  the rational \<open>3602879701896397 / 4503599627370496\<close>.
\<close>

definition float_0_8 :: rat where
  "float_0_8 = 3602879701896397 / 4503599627370496"

definition gt_0_8 :: "pyval \<Rightarrow> exn + bool" where
  "gt_0_8 v =
     (case v of
        PBool b \<Rightarrow> Inr b
      | PInt i \<Rightarrow> Inr (1 \<le> i)
      | PFloat r \<Rightarrow> Inr (float_0_8 < r)
      | _ \<Rightarrow> Inl TypeError)"

record alert_env =
  alert_stamp :: string
  alert_iso :: string
  alert_append :: append_env

definition log_bias_alert ::
  "(pyval \<Rightarrow> string) \<Rightarrow> alert_env \<Rightarrow> string \<Rightarrow> pydict \<Rightarrow> ledger \<Rightarrow> (exn + unit) \<times> ledger" where
  "log_bias_alert so aenv related bias_result L =
     (case dict_get bias_result ''confidence'' of
        None \<Rightarrow> (Inl (KeyError ''confidence''), L)
      | Some c \<Rightarrow>
          (case gt_0_8 c of
             Inl x \<Rightarrow> (Inl x, L)
           | Inr high \<Rightarrow>
               (let alert_entry =
                      [(''id'', PStr (''BIAS_ALERT_'' @ alert_stamp aenv)),
                       (''alert_type'', PStr ''bias_detection''),
                       (''related_entry'', PStr related),
                       (''bias_details'', PDict bias_result),
                       (''severity'', PStr (if high then ''HIGH'' else ''MEDIUM'')),
                       (''regulatory_notification'', PBool True),
                       (''timestamp'', PStr (alert_iso aenv))]
                in case append_entry so (alert_append aenv) alert_entry L of
                     (Inl x, L') \<Rightarrow> (Inl x, L')
                   | (Inr eid, L') \<Rightarrow> (Inr (), L'))))"

section \<open>Files\<close>

text \<open>
  The files the backup and recovery code works on. A path is the list of its components,
  relative to the working directory (the empty path), which always exists; a file holds
  bytes. The listing order of a directory is the order of the association list. Only the
  failures that the state of the files determines are modelled (a missing file, a
  directory in place of a file, ...), not those of the device.
\<close>

datatype node = File string | Dir

type_synonym path = "string list"

type_synonym fs = "(path \<times> node) list"

definition lookup :: "fs \<Rightarrow> path \<Rightarrow> node option" where
  "lookup fs p = (if p = [] then Some Dir else map_of fs p)"

definition exists :: "fs \<Rightarrow> path \<Rightarrow> bool" where
  "exists fs p = (lookup fs p \<noteq> None)"

definition is_dir :: "fs \<Rightarrow> path \<Rightarrow> bool" where
  "is_dir fs p = (lookup fs p = Some Dir)"

definition is_file :: "fs \<Rightarrow> path \<Rightarrow> bool" where
  "is_file fs p = (case lookup fs p of Some (File b) \<Rightarrow> True | _ \<Rightarrow> False)"

definition st_size :: "node \<Rightarrow> nat" where
  "st_size n = (case n of File b \<Rightarrow> length b | Dir \<Rightarrow> 4096)"

definition children :: "fs \<Rightarrow> path \<Rightarrow> path list" where
  "children fs d = filter (\<lambda>p. p \<noteq> [] \<and> butlast p = d) (map fst fs)"

definition descendants :: "fs \<Rightarrow> path \<Rightarrow> path list" where
  "descendants fs d = filter (\<lambda>p. length d < length p \<and> take (length d) p = d) (map fst fs)"

text \<open>
  \<^verbatim>\<open>base / name\<close>: the name is cut at the slashes, empty components and \<^verbatim>\<open>.\<close> are
  dropped. Absolute names and \<^verbatim>\<open>..\<close> are not interpreted.
\<close>

fun split_path :: "string \<Rightarrow> string \<Rightarrow> string list" where
  "split_path cur [] = (if cur = [] \<or> cur = ''.'' then [] else [cur])"
| "split_path cur (c # cs) =
     (if c = CHR ''/'' then (if cur = [] \<or> cur = ''.'' then [] else [cur]) @ split_path [] cs
      else split_path (cur @ [c]) cs)"

definition path_join :: "path \<Rightarrow> string \<Rightarrow> path" where
  "path_join base name = base @ split_path [] name"

text \<open>
  Writing, reading, \<^verbatim>\<open>Path.mkdir(exist_ok=True)\<close>, \<^verbatim>\<open>mkdir(parents=True, exist_ok=True)\<close>,
  \<^verbatim>\<open>shutil.copy2\<close>, \<^verbatim>\<open>Path.iterdir\<close>, \<^verbatim>\<open>shutil.rmtree\<close> and \<^verbatim>\<open>shutil.copytree\<close>.
\<close>

definition put :: "fs \<Rightarrow> path \<Rightarrow> node \<Rightarrow> fs" where
  "put fs p n = (if map_of fs p = None then fs @ [(p, n)] else map (\<lambda>kv. if fst kv = p then (p, n) else kv) fs)"

definition write_file :: "fs \<Rightarrow> path \<Rightarrow> string \<Rightarrow> exn + fs" where
  "write_file fs p b =
     (if p = [] \<or> lookup fs p = Some Dir then Inl IsADirectoryError
      else case lookup fs (butlast p) of
             None \<Rightarrow> Inl FileNotFoundError
           | Some (File x) \<Rightarrow> Inl NotADirectoryError
           | Some Dir \<Rightarrow> Inr (put fs p (File b)))"

definition read_file :: "fs \<Rightarrow> path \<Rightarrow> exn + string" where
  "read_file fs p =
     (case lookup fs p of
        None \<Rightarrow> Inl FileNotFoundError
      | Some Dir \<Rightarrow> Inl IsADirectoryError
      | Some (File b) \<Rightarrow> Inr b)"

definition mkdir :: "fs \<Rightarrow> path \<Rightarrow> exn + fs" where
  "mkdir fs p =
     (case lookup fs p of
        Some Dir \<Rightarrow> Inr fs
      | Some (File b) \<Rightarrow> Inl FileExistsError
      | None \<Rightarrow>
          (case lookup fs (butlast p) of
             None \<Rightarrow> Inl FileNotFoundError
           | Some (File x) \<Rightarrow> Inl NotADirectoryError
           | Some Dir \<Rightarrow> Inr (put fs p Dir)))"

fun mkdir_from :: "fs \<Rightarrow> path \<Rightarrow> string list \<Rightarrow> exn + fs" where
  "mkdir_from fs done [] = Inr fs"
| "mkdir_from fs done (c # cs) =
     (case lookup fs (done @ [c]) of
        Some Dir \<Rightarrow> mkdir_from fs (done @ [c]) cs
      | Some (File b) \<Rightarrow> Inl (if cs = [] then FileExistsError else NotADirectoryError)
      | None \<Rightarrow> mkdir_from (put fs (done @ [c]) Dir) (done @ [c]) cs)"

definition mkdir_parents :: "fs \<Rightarrow> path \<Rightarrow> exn + fs" where
  "mkdir_parents fs p = mkdir_from fs [] p"

definition copy2 :: "fs \<Rightarrow> path \<Rightarrow> path \<Rightarrow> exn + fs" where
  "copy2 fs src dst =
     (case read_file fs src of
        Inl x \<Rightarrow> Inl x
      | Inr b \<Rightarrow>
          (let target = (if is_dir fs dst then dst @ [last src] else dst)
           in if target = src then Inl (Exception ''SameFileError'') else write_file fs target b))"

definition iterdir :: "fs \<Rightarrow> path \<Rightarrow> exn + path list" where
  "iterdir fs d =
     (case lookup fs d of
        None \<Rightarrow> Inl FileNotFoundError
      | Some (File b) \<Rightarrow> Inl NotADirectoryError
      | Some Dir \<Rightarrow> Inr (children fs d))"

definition rmtree :: "fs \<Rightarrow> path \<Rightarrow> exn + fs" where
  "rmtree fs p =
     (case lookup fs p of
        None \<Rightarrow> Inl FileNotFoundError
      | Some (File b) \<Rightarrow> Inl NotADirectoryError
      | Some Dir \<Rightarrow> Inr (filter (\<lambda>kv. \<not> (length p \<le> length (fst kv) \<and> take (length p) (fst kv) = p)) fs))"

definition copytree :: "fs \<Rightarrow> path \<Rightarrow> path \<Rightarrow> exn + fs" where
  "copytree fs src dst =
     (case lookup fs src of
        None \<Rightarrow> Inl FileNotFoundError
      | Some (File b) \<Rightarrow> Inl NotADirectoryError
      | Some Dir \<Rightarrow>
          if exists fs dst then Inl FileExistsError
          else case mkdir_parents fs dst of
                 Inl x \<Rightarrow> Inl x
               | Inr fs1 \<Rightarrow>
                   Inr (foldl (\<lambda>acc kv. put acc (dst @ drop (length src) (fst kv)) (snd kv)) fs1
                          (filter (\<lambda>kv. length src < length (fst kv) \<and> take (length src) (fst kv) = src) fs)))"


section \<open>Operations on Python values used by the backup code\<close>

text \<open>
  Truth value, \<^verbatim>\<open>v[k]\<close> with a \<^verbatim>\<open>str\<close> key, a value used as a path component, iteration,
  and \<^verbatim>\<open>json.load\<close> of a file. \<open>jl\<close> is the JSON parser, \<open>None\<close> its
  \<^verbatim>\<open>JSONDecodeError\<close>.
\<close>

definition truthy :: "pyval \<Rightarrow> bool" where
  "truthy v =
     (case v of
        PNone \<Rightarrow> False
      | PBool b \<Rightarrow> b
      | PInt i \<Rightarrow> i \<noteq> 0
      | PFloat r \<Rightarrow> r \<noteq> 0
      | PStr s \<Rightarrow> s \<noteq> []
      | PList xs \<Rightarrow> xs \<noteq> []
      | PDict kvs \<Rightarrow> kvs \<noteq> []
      | PObject n \<Rightarrow> True)"

definition subscript :: "pyval \<Rightarrow> string \<Rightarrow> exn + pyval" where
  "subscript v k =
     (case v of
        PDict kvs \<Rightarrow> (case dict_get kvs k of None \<Rightarrow> Inl (KeyError k) | Some x \<Rightarrow> Inr x)
      | _ \<Rightarrow> Inl TypeError)"

definition as_name :: "pyval \<Rightarrow> exn + string" where
  "as_name v = (case v of PStr s \<Rightarrow> Inr s | _ \<Rightarrow> Inl TypeError)"

definition py_iter :: "pyval \<Rightarrow> exn + pyval list" where
  "py_iter v =
     (case v of
        PList xs \<Rightarrow> Inr xs
      | PDict kvs \<Rightarrow> Inr (map (\<lambda>kv. PStr (fst kv)) kvs)
      | PStr s \<Rightarrow> Inr (map (\<lambda>c. PStr [c]) s)
      | _ \<Rightarrow> Inl TypeError)"

definition load_json :: "(string \<Rightarrow> pyval option) \<Rightarrow> fs \<Rightarrow> path \<Rightarrow> exn + pyval" where
  "load_json jl fs p =
     (case read_file fs p of
        Inl x \<Rightarrow> Inl x
      | Inr b \<Rightarrow> (case jl b of None \<Rightarrow> Inl JSONDecodeError | Some v \<Rightarrow> Inr v))"

section \<open>Restoring from a backup (audit/backup.py)\<close>

text \<open>
  The directories of an \<^verbatim>\<open>AutomatedBackupSystem\<close>, \<^verbatim>\<open>_find_backup\<close>, \<^verbatim>\<open>_verify_backup\<close>
  (every exception inside it gives an invalid verification) and \<^verbatim>\<open>restore_from_backup\<close>.
  \<open>gunzip\<close> is the decompression of \<^verbatim>\<open>gzip\<close>, \<open>None\<close> when the bytes are not a gzip
  stream. The state of the files is returned with the result, also when the method
  fails half way.
\<close>

record backup_system =
  primary_data_dir :: path
  backup_base_dir :: path

definition daily_backup_dir :: "backup_system \<Rightarrow> path" where
  "daily_backup_dir B = backup_base_dir B @ [''daily'']"

definition monthly_backup_dir :: "backup_system \<Rightarrow> path" where
  "monthly_backup_dir B = backup_base_dir B @ [''monthly'']"

definition yearly_backup_dir :: "backup_system \<Rightarrow> path" where
  "yearly_backup_dir B = backup_base_dir B @ [''yearly'']"

definition find_backup :: "backup_system \<Rightarrow> fs \<Rightarrow> string \<Rightarrow> path option" where
  "find_backup B fs backup_id =
     (if exists fs (path_join (daily_backup_dir B) backup_id)
      then Some (path_join (daily_backup_dir B) backup_id)
      else case find (\<lambda>archive_dir. exists fs (path_join archive_dir backup_id))
                  (children fs (monthly_backup_dir B)) of
             Some archive_dir \<Rightarrow> Some (path_join archive_dir backup_id)
           | None \<Rightarrow>
               (case find (\<lambda>yearly_dir. exists fs (path_join yearly_dir backup_id))
                       (children fs (yearly_backup_dir B)) of
                  Some yearly_dir \<Rightarrow> Some (path_join yearly_dir backup_id)
                | None \<Rightarrow> None))"

datatype verification =
    Verification bool nat "string list" "string list"
  | VerificationFailed exn

fun ver_valid :: "verification \<Rightarrow> bool" where
  "ver_valid (Verification b n missing corrupted) = b"
| "ver_valid (VerificationFailed x) = False"

fun verify_files ::
  "fs \<Rightarrow> path \<Rightarrow> pyval list \<Rightarrow> string list \<Rightarrow> string list \<Rightarrow> exn + (string list \<times> string list)" where
  "verify_files fs backup_dir [] missing_files corrupted_files = Inr (missing_files, corrupted_files)"
| "verify_files fs backup_dir (file_info # rest) missing_files corrupted_files =
     (case subscript file_info ''backup_filename'' of
        Inl x \<Rightarrow> Inl x
      | Inr v \<Rightarrow>
          (case as_name v of
             Inl x \<Rightarrow> Inl x
           | Inr name \<Rightarrow>
               (case lookup fs (path_join backup_dir name) of
                  None \<Rightarrow> verify_files fs backup_dir rest (missing_files @ [name]) corrupted_files
                | Some n \<Rightarrow>
                    verify_files fs backup_dir rest missing_files
                      (if st_size n = 0 then corrupted_files @ [name] else corrupted_files))))"

definition verify_backup :: "(string \<Rightarrow> pyval option) \<Rightarrow> fs \<Rightarrow> path \<Rightarrow> verification" where
  "verify_backup jl fs backup_dir =
     (if \<not> exists fs (backup_dir @ [''backup_manifest.json''])
      then VerificationFailed (Exception ''Manifest file missing'')
      else case load_json jl fs (backup_dir @ [''backup_manifest.json'']) of
             Inl x \<Rightarrow> VerificationFailed x
           | Inr manifest \<Rightarrow>
               (case (case manifest of
                        PDict kvs \<Rightarrow> (case dict_get kvs ''files_backed_up'' of
                                        None \<Rightarrow> Inr [] | Some v \<Rightarrow> py_iter v)
                      | _ \<Rightarrow> Inl (Exception ''AttributeError'')) of
                  Inl x \<Rightarrow> VerificationFailed x
                | Inr infos \<Rightarrow>
                    (case verify_files fs backup_dir infos [] [] of
                       Inl x \<Rightarrow> VerificationFailed x
                     | Inr mc \<Rightarrow>
                         Verification (fst mc = [] \<and> snd mc = []) (length infos) (fst mc) (snd mc))))"

record restore_ok =
  restore_path :: path
  restored_files :: "path list"
  original_backup_time :: pyval

definition restore_one ::
  "(string \<Rightarrow> string option) \<Rightarrow> fs \<Rightarrow> path \<Rightarrow> path \<Rightarrow> pyval \<Rightarrow> (exn + path) \<times> fs" where
  "restore_one gunzip fs backup_dir target_dir file_info =
     (case subscript file_info ''backup_filename'' of
        Inl x \<Rightarrow> (Inl x, fs)
      | Inr bv \<Rightarrow>
     (case as_name bv of
        Inl x \<Rightarrow> (Inl x, fs)
      | Inr backup_filename \<Rightarrow>
     (case subscript file_info ''original_filename'' of
        Inl x \<Rightarrow> (Inl x, fs)
      | Inr ov \<Rightarrow>
     (case as_name ov of
        Inl x \<Rightarrow> (Inl x, fs)
      | Inr original_filename \<Rightarrow>
          (let source_file = path_join backup_dir backup_filename;
               target_file = path_join target_dir original_filename
           in case mkdir_parents fs (butlast target_file) of
                Inl x \<Rightarrow> (Inl x, fs)
              | Inr fs1 \<Rightarrow>
                  if truthy (case subscript file_info ''compressed'' of Inl x \<Rightarrow> PNone | Inr c \<Rightarrow> c)
                  then (case read_file fs1 source_file of
                          Inl x \<Rightarrow> (Inl x, fs1)
                        | Inr b \<Rightarrow>
                            (case write_file fs1 target_file [] of
                               Inl x \<Rightarrow> (Inl x, fs1)
                             | Inr fs2 \<Rightarrow>
                                 (case gunzip b of
                                    None \<Rightarrow> (Inl BadGzipFile, fs2)
                                  | Some plain \<Rightarrow>
                                      (case write_file fs2 target_file plain of
                                         Inl x \<Rightarrow> (Inl x, fs2)
                                       | Inr fs3 \<Rightarrow> (Inr target_file, fs3)))))
                  else (case copy2 fs1 source_file target_file of
                          Inl x \<Rightarrow> (Inl x, fs1)
                        | Inr fs2 \<Rightarrow> (Inr target_file, fs2)))))))"

fun restore_files ::
  "(string \<Rightarrow> string option) \<Rightarrow> fs \<Rightarrow> path \<Rightarrow> path \<Rightarrow> pyval list \<Rightarrow> path list
     \<Rightarrow> (exn + path list) \<times> fs" where
  "restore_files gunzip fs backup_dir target_dir [] restored = (Inr restored, fs)"
| "restore_files gunzip fs backup_dir target_dir (file_info # rest) restored =
     (case restore_one gunzip fs backup_dir target_dir file_info of
        (Inl x, fs') \<Rightarrow> (Inl x, fs')
      | (Inr target_file, fs') \<Rightarrow>
          restore_files gunzip fs' backup_dir target_dir rest (restored @ [target_file]))"

definition restore_from_backup ::
  "(string \<Rightarrow> pyval option) \<Rightarrow> (string \<Rightarrow> string option) \<Rightarrow> backup_system \<Rightarrow> fs \<Rightarrow> string
     \<Rightarrow> string option \<Rightarrow> (exn + restore_ok) \<times> fs" where
  "restore_from_backup jl gunzip B fs backup_id restore_path_arg =
     (case find_backup B fs backup_id of
        None \<Rightarrow> (Inl (ValueError ''Backup not found''), fs)
      | Some backup_dir \<Rightarrow>
          if \<not> exists fs (backup_dir @ [''backup_manifest.json''])
          then (Inl (ValueError ''Backup manifest not found''), fs)
          else case load_json jl fs (backup_dir @ [''backup_manifest.json'']) of
                 Inl x \<Rightarrow> (Inl x, fs)
               | Inr manifest \<Rightarrow>
                   if \<not> ver_valid (verify_backup jl fs backup_dir)
                   then (Inl (ValueError ''Backup failed integrity check''), fs)
                   else
                     (let target_dir = (case restore_path_arg of
                                          None \<Rightarrow> primary_data_dir B
                                        | Some rp \<Rightarrow> if rp = [] then primary_data_dir B
                                                     else path_join [] rp)
                      in case mkdir fs target_dir of
                           Inl x \<Rightarrow> (Inl x, fs)
                         | Inr fs1 \<Rightarrow>
                             (case subscript manifest ''files_backed_up'' of
                                Inl x \<Rightarrow> (Inl x, fs1)
                              | Inr fl \<Rightarrow>
                             (case py_iter fl of
                                Inl x \<Rightarrow> (Inl x, fs1)
                              | Inr infos \<Rightarrow>
                             (case restore_files gunzip fs1 backup_dir target_dir infos [] of
                                (Inl x, fs2) \<Rightarrow> (Inl x, fs2)
                              | (Inr restored, fs2) \<Rightarrow>
                                  (case subscript manifest ''start_time'' of
                                     Inl x \<Rightarrow> (Inl x, fs2)
                                   | Inr st \<Rightarrow>
                                       (Inr \<lparr>restore_path = target_dir, restored_files = restored,
                                             original_backup_time = st\<rparr>, fs2)))))))"


section \<open>Disaster recovery (backup/disaster_recovery.py)\<close>

text \<open>
  \<^verbatim>\<open>DisasterRecoverySystem.perform_recovery\<close> and the private methods it calls. The backup
  system is handed to the constructor, so the pre-recovery backup is the parameter
  \<open>create_backup\<close>: it returns the backup id or the error text, and the files it leaves.
  \<open>jd\<close> is \<^verbatim>\<open>json.dump\<close> of the log document. \<^verbatim>\<open>_truncate_chain_to_time\<close> only prints,
  so \<^verbatim>\<open>target_time\<close> has no effect and is left out; the logged documents are abridged
  to the fields that do not carry times.
\<close>

record recovery_system =
  dr_primary_data_dir :: path
  recovery_dir :: path

datatype step_result = StepOk | StepFailed exn

fun step_success :: "step_result \<Rightarrow> bool" where
  "step_success StepOk = True"
| "step_success (StepFailed x) = False"

record verification_result =
  overall_success :: bool
  checks_performed :: "(string \<times> bool) list"
  verification_mode :: string

record recovery_record =
  recovery_id :: string
  rec_recovery_point_id :: string
  sla_compliant :: bool
  recovery_steps :: "(string \<times> step_result) list"
  rec_verification_result :: verification_result
  rec_pre_recovery_backup :: string
  rec_success :: bool

record dr_state =
  recovery_in_progress :: bool
  recovery_history :: "recovery_record list"

record recovery_env =
  start_stamp :: string
  chain_backup_stamp :: string
  log_date :: string
  log_date_iso :: string
  duration_seconds :: rat

datatype recovery_result =
    RecoverySuccess string bool verification_result string
  | RecoveryFailure exn
  | RecoveryInProgress

fun result_success :: "recovery_result \<Rightarrow> bool" where
  "result_success (RecoverySuccess rid sla v b) = True"
| "result_success (RecoveryFailure x) = False"
| "result_success RecoveryInProgress = False"

definition max_recovery_time_hours :: rat where
  "max_recovery_time_hours = 4"

definition find_recovery_point :: "recovery_system \<Rightarrow> fs \<Rightarrow> string \<Rightarrow> path option" where
  "find_recovery_point R fs recovery_point_id =
     (if exists fs (path_join (recovery_dir R) recovery_point_id)
         \<and> is_dir fs (path_join (recovery_dir R) recovery_point_id)
      then Some (path_join (recovery_dir R) recovery_point_id) else None)"

definition load_recovery_metadata :: "(string \<Rightarrow> pyval option) \<Rightarrow> fs \<Rightarrow> path \<Rightarrow> exn + pyval" where
  "load_recovery_metadata jl fs recovery_point =
     (if \<not> exists fs (recovery_point @ [''recovery_metadata.json''])
      then Inl (Exception ''Recovery metadata file not found'')
      else load_json jl fs (recovery_point @ [''recovery_metadata.json'']))"

definition calculate_recovery_point_checksum :: "fs \<Rightarrow> path \<Rightarrow> string" where
  "calculate_recovery_point_checksum fs rp =
     sha256 (join ''|'' (sort (concat (map
        (\<lambda>file_path. case lookup fs file_path of
                        Some (File b) \<Rightarrow>
                          if last file_path \<noteq> ''recovery_metadata.json''
                          then [last file_path @ '':'' @ sha256 b] else []
                      | _ \<Rightarrow> [])
        (descendants fs rp)))))"

definition verify_recovery_point_integrity :: "fs \<Rightarrow> path \<Rightarrow> pyval \<Rightarrow> bool" where
  "verify_recovery_point_integrity fs recovery_point metadata =
     (case metadata of
        PDict kvs \<Rightarrow>
          (case dict_get kvs ''checksum'' of
             None \<Rightarrow> False
           | Some expected_checksum \<Rightarrow>
               truthy expected_checksum
               \<and> expected_checksum = PStr (calculate_recovery_point_checksum fs recovery_point)
               \<and> filter (\<lambda>required_file. \<not> exists fs (recovery_point @ [required_file]))
                    [''audit_chain_backup.pkl.gz'', ''config'', ''user_data''] = [])
      | _ \<Rightarrow> False)"

definition restore_audit_chain ::
  "recovery_system \<Rightarrow> recovery_env \<Rightarrow> fs \<Rightarrow> path \<Rightarrow> step_result \<times> fs" where
  "restore_audit_chain R env fs recovery_point =
     (let source_chain = recovery_point @ [''audit_chain_backup.pkl.gz''];
          dest_chain = dr_primary_data_dir R @ [''audit_chain.pkl.gz'']
      in if \<not> exists fs source_chain
         then (StepFailed (Exception ''Audit chain backup not found''), fs)
         else case (if exists fs dest_chain
                    then copy2 fs dest_chain
                           (dr_primary_data_dir R
                              @ [''audit_chain_pre_recovery_'' @ chain_backup_stamp env @ ''.pkl.gz''])
                    else Inr fs) of
                Inl x \<Rightarrow> (StepFailed x, fs)
              | Inr fs1 \<Rightarrow>
                  (case copy2 fs1 source_chain dest_chain of
                     Inl x \<Rightarrow> (StepFailed x, fs1)
                   | Inr fs2 \<Rightarrow> (StepOk, fs2)))"

fun restore_config_files :: "recovery_system \<Rightarrow> fs \<Rightarrow> path list \<Rightarrow> step_result \<times> fs" where
  "restore_config_files R fs [] = (StepOk, fs)"
| "restore_config_files R fs (config_file # rest) =
     (if is_file fs config_file
      then (case copy2 fs config_file (butlast (dr_primary_data_dir R) @ [last config_file]) of
              Inl x \<Rightarrow> (StepFailed x, fs)
            | Inr fs1 \<Rightarrow> restore_config_files R fs1 rest)
      else restore_config_files R fs rest)"

definition restore_system_config :: "recovery_system \<Rightarrow> fs \<Rightarrow> path \<Rightarrow> step_result \<times> fs" where
  "restore_system_config R fs recovery_point =
     (if exists fs (recovery_point @ [''config''])
      then (case iterdir fs (recovery_point @ [''config'']) of
              Inl x \<Rightarrow> (StepFailed x, fs)
            | Inr files \<Rightarrow> restore_config_files R fs files)
      else (StepOk, fs))"

fun restore_data_dirs :: "recovery_system \<Rightarrow> fs \<Rightarrow> path list \<Rightarrow> step_result \<times> fs" where
  "restore_data_dirs R fs [] = (StepOk, fs)"
| "restore_data_dirs R fs (data_dir # rest) =
     (let dest_path = dr_primary_data_dir R @ [last data_dir]
      in if is_dir fs data_dir
         then (case (if exists fs dest_path then rmtree fs dest_path else Inr fs) of
                 Inl x \<Rightarrow> (StepFailed x, fs)
               | Inr fs1 \<Rightarrow>
                   (case copytree fs1 data_dir dest_path of
                      Inl x \<Rightarrow> (StepFailed x, fs1)
                    | Inr fs2 \<Rightarrow> restore_data_dirs R fs2 rest))
         else (case copy2 fs data_dir dest_path of
                 Inl x \<Rightarrow> (StepFailed x, fs)
               | Inr fs1 \<Rightarrow> restore_data_dirs R fs1 rest))"

definition restore_user_data :: "recovery_system \<Rightarrow> fs \<Rightarrow> path \<Rightarrow> step_result \<times> fs" where
  "restore_user_data R fs recovery_point =
     (if exists fs (recovery_point @ [''user_data''])
      then (case iterdir fs (recovery_point @ [''user_data'']) of
              Inl x \<Rightarrow> (StepFailed x, fs)
            | Inr dirs \<Rightarrow> restore_data_dirs R fs dirs)
      else (StepOk, fs))"

definition check_audit_chain_exists :: "recovery_system \<Rightarrow> fs \<Rightarrow> bool" where
  "check_audit_chain_exists R fs =
     (case lookup fs (dr_primary_data_dir R @ [''audit_chain.pkl.gz'']) of
        None \<Rightarrow> False
      | Some n \<Rightarrow> st_size n > 0)"

definition check_config_files_exist :: "recovery_system \<Rightarrow> fs \<Rightarrow> bool" where
  "check_config_files_exist R fs =
     (filter (\<lambda>config. \<not> exists fs (butlast (dr_primary_data_dir R) @ [config]))
        [''config.json'', ''settings.ini''] = [])"

definition verify_recovery_success :: "recovery_system \<Rightarrow> fs \<Rightarrow> string \<Rightarrow> verification_result" where
  "verify_recovery_success R fs mode =
     (let checks = [(''audit_chain_exists'', check_audit_chain_exists R fs),
                    (''config_files_exist'', check_config_files_exist R fs)]
                   @ (if mode \<in> set [''standard'', ''full'']
                      then [(''chain_integrity'', True), (''system_functionality'', True)] else [])
                   @ (if mode = ''full''
                      then [(''performance_validation'', True), (''compliance_validation'', True)]
                      else [])
      in \<lparr>overall_success = foldl (\<lambda>ok check. if \<not> snd check then False else ok) True checks,
          checks_performed = checks,
          verification_mode = mode\<rparr>)"

definition log_recovery_operation ::
  "(string \<Rightarrow> pyval option) \<Rightarrow> (pyval \<Rightarrow> string) \<Rightarrow> recovery_system \<Rightarrow> recovery_env \<Rightarrow> fs \<Rightarrow> pyval
     \<Rightarrow> exn option \<times> fs" where
  "log_recovery_operation jl jd R env fs record =
     (let log_dir = recovery_dir R @ [''recovery_logs''];
          log_file = log_dir @ [''recovery_log_'' @ log_date env @ ''.json'']
      in case mkdir fs log_dir of
           Inl x \<Rightarrow> (Some x, fs)
         | Inr fs1 \<Rightarrow>
             (case (if exists fs1 log_file then load_json jl fs1 log_file
                    else Inr (PDict [(''daily_log'', PList []), (''date'', PStr (log_date_iso env))])) of
                Inl x \<Rightarrow> (Some x, fs1)
              | Inr logs \<Rightarrow>
                  (case logs of
                     PDict kvs \<Rightarrow>
                       (case dict_get kvs ''daily_log'' of
                          Some (PList entries) \<Rightarrow>
                            (case write_file fs1 log_file
                                    (jd (PDict (map (\<lambda>kv. if fst kv = ''daily_log''
                                                           then (''daily_log'', PList (entries @ [record]))
                                                           else kv) kvs))) of
                               Inl x \<Rightarrow> (Some x, fs1)
                             | Inr fs2 \<Rightarrow> (None, fs2))
                        | Some other \<Rightarrow> (Some (Exception ''AttributeError''), fs1)
                        | None \<Rightarrow> (Some (KeyError ''daily_log''), fs1))
                   | _ \<Rightarrow> (Some TypeError, fs1))))"

definition record_json :: "recovery_record \<Rightarrow> pyval" where
  "record_json r =
     PDict [(''recovery_id'', PStr (recovery_id r)),
            (''recovery_point_id'', PStr (rec_recovery_point_id r)),
            (''sla_compliant'', PBool (sla_compliant r)),
            (''recovery_steps'',
               PList (map (\<lambda>s. PList [PStr (fst s), PDict [(''success'', PBool (step_success (snd s)))]])
                        (recovery_steps r))),
            (''verification_result'',
               PDict [(''overall_success'', PBool (overall_success (rec_verification_result r))),
                      (''checks_performed'',
                         PList (map (\<lambda>c. PDict [(''check'', PStr (fst c)), (''success'', PBool (snd c))])
                                  (checks_performed (rec_verification_result r)))),
                      (''verification_mode'', PStr (verification_mode (rec_verification_result r)))]),
            (''pre_recovery_backup'', PStr (rec_pre_recovery_backup r)),
            (''success'', PBool (rec_success r))]"

definition error_record_json :: "recovery_env \<Rightarrow> string \<Rightarrow> pyval" where
  "error_record_json env recovery_point_id =
     PDict [(''recovery_id'', PStr (''REC_FAILED_'' @ start_stamp env)),
            (''recovery_point_id'', PStr recovery_point_id),
            (''success'', PBool False)]"

definition recovery_body ::
  "(string \<Rightarrow> pyval option) \<Rightarrow> (pyval \<Rightarrow> string) \<Rightarrow> (fs \<Rightarrow> (string + string) \<times> fs)
     \<Rightarrow> recovery_system \<Rightarrow> recovery_env \<Rightarrow> fs \<Rightarrow> string \<Rightarrow> string
     \<Rightarrow> (exn + recovery_record) \<times> fs" where
  "recovery_body jl jd create_backup R env fs recovery_point_id mode =
     (case find_recovery_point R fs recovery_point_id of
        None \<Rightarrow> (Inl (Exception ''Recovery point not found''), fs)
      | Some recovery_point \<Rightarrow>
     (case load_recovery_metadata jl fs recovery_point of
        Inl x \<Rightarrow> (Inl x, fs)
      | Inr metadata \<Rightarrow>
          if \<not> verify_recovery_point_integrity fs recovery_point metadata
          then (Inl (Exception ''Recovery point integrity check failed''), fs)
          else
     (case create_backup fs of
        (Inl err, fs0) \<Rightarrow> (Inl (Exception (''Failed to create pre-recovery backup: '' @ err)), fs0)
      | (Inr pre_recovery_backup, fs0) \<Rightarrow>
          (let chain_step = restore_audit_chain R env fs0 recovery_point;
               config_step = restore_system_config R (snd chain_step) recovery_point;
               data_step = restore_user_data R (snd config_step) recovery_point;
               fs3 = snd data_step;
               verification = verify_recovery_success R fs3 mode;
               recovery_record =
                 \<lparr>recovery_id = ''REC_'' @ start_stamp env,
                  rec_recovery_point_id = recovery_point_id,
                  sla_compliant = (duration_seconds env < max_recovery_time_hours * 3600),
                  recovery_steps = [(''audit_chain'', fst chain_step),
                                    (''system_config'', fst config_step),
                                    (''user_data'', fst data_step)],
                  rec_verification_result = verification,
                  rec_pre_recovery_backup = pre_recovery_backup,
                  rec_success = overall_success verification\<rparr>
           in case log_recovery_operation jl jd R env fs3 (record_json recovery_record) of
                (Some x, fs4) \<Rightarrow> (Inl x, fs4)
              | (None, fs4) \<Rightarrow> (Inr recovery_record, fs4)))))"

definition perform_recovery ::
  "(string \<Rightarrow> pyval option) \<Rightarrow> (pyval \<Rightarrow> string) \<Rightarrow> (fs \<Rightarrow> (string + string) \<times> fs)
     \<Rightarrow> recovery_system \<Rightarrow> recovery_env \<Rightarrow> string \<Rightarrow> string \<Rightarrow> dr_state \<times> fs
     \<Rightarrow> (exn + recovery_result) \<times> dr_state \<times> fs" where
  "perform_recovery jl jd create_backup R env recovery_point_id mode st =
     (if recovery_in_progress (fst st) then (Inr RecoveryInProgress, st)
      else case recovery_body jl jd create_backup R env (snd st) recovery_point_id mode of
             (Inr recovery_record, fs') \<Rightarrow>
               (Inr (RecoverySuccess (recovery_id recovery_record) (sla_compliant recovery_record)
                       (rec_verification_result recovery_record)
                       (rec_pre_recovery_backup recovery_record)),
                (fst st)\<lparr>recovery_in_progress := False,
                          recovery_history := recovery_history (fst st) @ [recovery_record]\<rparr>,
                fs')
           | (Inl x, fs') \<Rightarrow>
               (case log_recovery_operation jl jd R env fs' (error_record_json env recovery_point_id) of
                  (Some y, fs'') \<Rightarrow> (Inl y, (fst st)\<lparr>recovery_in_progress := False\<rparr>, fs'')
                | (None, fs'') \<Rightarrow>
                    (Inr (RecoveryFailure x), (fst st)\<lparr>recovery_in_progress := False\<rparr>, fs'')))"

section \<open>Sample inputs and auxiliary notions\<close>

text \<open>
  Concrete inputs for the instances below: a \<^verbatim>\<open>str()\<close> that is never consulted on
  \<^verbatim>\<open>str\<close> values, clock readings and the payloads of the scenario of the specification
  (\<^verbatim>\<open>decision_type\<close> \<^verbatim>\<open>"procurement"\<close>, \<^verbatim>\<open>user_id\<close> \<^verbatim>\<open>"1234567890"\<close> onwards).
  \<open>linked h es\<close> says that the entries \<open>es\<close> form a hash chain that starts from \<open>h\<close>;
  \<open>new_entry\<close> is the entry \<^verbatim>\<open>append_entry\<close> builds before it computes the hash.
\<close>

definition str_stub :: "pyval \<Rightarrow> string" where
  "str_stub v = ''<object>''"

definition sample_env :: "char \<Rightarrow> append_env" where
  "sample_env c = \<lparr>id_stamp = ''20240115_103000_12345'' @ [c],
                    now_iso = ''2024-01-15T10:30:00.12345'' @ [c],
                    hijri_date = ''1445-07-03'',
                    retention_iso = ''2031-01-13T10:30:00.12345'' @ [c]\<rparr>"

definition sample_payload :: "char \<Rightarrow> pydict" where
  "sample_payload c = [(''decision_type'', PStr ''procurement''), (''user_id'', PStr (''123456789'' @ [c]))]"

definition sample_call :: "char \<Rightarrow> append_env \<times> pydict" where
  "sample_call c = (sample_env c, sample_payload c)"

fun linked :: "string option \<Rightarrow> entry list \<Rightarrow> bool" where
  "linked h [] = True"
| "linked h (e # es) = (previous_hash e = h \<and> linked (hash e) es)"

definition new_entry :: "(pyval \<Rightarrow> string) \<Rightarrow> append_env \<Rightarrow> pydict \<Rightarrow> ledger \<Rightarrow> entry" where
  "new_entry so env entry_data L =
     \<lparr>entry_id = generate_entry_id so env entry_data, data = entry_data, timestamp = now_iso env,
      timestamp_hijri = hijri_date env, previous_hash = get_latest_hash L,
      hash = None, chain_position = int (length (chain L)),
      retention_until = retention_iso env\<rparr>"

text \<open>
  An out-of-band mutation of the stored \<^verbatim>\<open>hash\<close> field of the entry at index \<open>i\<close> (the
  chain file edited on disk and loaded again).
\<close>

definition tamper :: "nat \<Rightarrow> string option \<Rightarrow> ledger \<Rightarrow> ledger" where
  "tamper i h L = L\<lparr>chain := (chain L)[i := (chain L ! i)\<lparr>hash := h\<rparr>]\<rparr>"

text \<open>
  The hash \<^verbatim>\<open>_calculate_hash(entry, exclude_hash=True)\<close> returns for a serialisable entry,
  the records one iteration of the verification loop adds, and the records of a whole
  run that is neither interrupted by the time limit nor by an exception.
\<close>

definition expected_hash :: "(pyval \<Rightarrow> string) \<Rightarrow> entry \<Rightarrow> string" where
  "expected_hash so e = sha256 (the (dumps so (PDict (dict_del (entry_dict e) ''hash''))))"

definition entry_records :: "(pyval \<Rightarrow> string) \<Rightarrow> nat \<Rightarrow> entry option \<Rightarrow> entry \<Rightarrow> corruption list" where
  "entry_records so i prev e =
     (if hash e \<noteq> Some (expected_hash so e)
      then [HashMismatch i (entry_id e) (expected_hash so e) (hash e)] else [])
     @ (case prev of None \<Rightarrow> []
        | Some p \<Rightarrow> if previous_hash e \<noteq> hash p then [LinkBroken i (entry_id e)] else [])"

fun all_records :: "(pyval \<Rightarrow> string) \<Rightarrow> nat \<Rightarrow> entry option \<Rightarrow> entry list \<Rightarrow> corruption list" where
  "all_records so i prev [] = []"
| "all_records so i prev (e # es) = entry_records so i prev e @ all_records so (Suc i) (Some e) es"

text \<open>A verification environment within the time limit, and a corrupted sample ledger.\<close>

definition sample_venv :: verify_env where
  "sample_venv = \<lparr>elapsed_ms = (\<lambda>i. 1), report_stamp = ''20240115_103100'', report_write_ok = True\<rparr>"

definition sample_corrupted :: ledger where
  "sample_corrupted = tamper 0 (Some ''tampered'') (append_all str_stub [sample_call CHR ''0''] new_ledger)"

definition sample_quarantined :: ledger where
  "sample_quarantined = snd (verify_chain_integrity str_stub sample_venv sample_corrupted)"

text \<open>
  The text \<^verbatim>\<open>append_entry\<close> hashes for an entry (the dictionary with \<^verbatim>\<open>"hash": None\<close>) and
  the text \<^verbatim>\<open>verify_chain_integrity\<close> hashes for it (the dictionary without the key).
\<close>

definition hashed_at_append :: "(pyval \<Rightarrow> string) \<Rightarrow> entry \<Rightarrow> string" where
  "hashed_at_append so e = the (dumps so (PDict (entry_dict (e\<lparr>hash := None\<rparr>))))"

definition hashed_at_verify :: "(pyval \<Rightarrow> string) \<Rightarrow> entry \<Rightarrow> string" where
  "hashed_at_verify so e = the (dumps so (PDict (dict_del (entry_dict e) ''hash'')))"

text \<open>
  The range check in the words of the specification: an entry is in the window when its
  timestamp lies in \<open>[start, end]\<close> and, if a decision type is given, its payload carries
  that type; it is self-consistent when its stored hash is the recomputed one. The
  result is assembled from the entries in the window, each looked at on its own.
\<close>

definition in_window :: "(string \<Rightarrow> int option) \<Rightarrow> int \<Rightarrow> int \<Rightarrow> string option \<Rightarrow> entry \<Rightarrow> bool" where
  "in_window parse start_date end_date decision_type e =
     ((case parse (timestamp e) of None \<Rightarrow> False | Some d \<Rightarrow> start_date \<le> d \<and> d \<le> end_date)
      \<and> (case decision_type of None \<Rightarrow> True
         | Some t \<Rightarrow> dict_get (data e) ''decision_type'' = Some (PStr t)))"

definition self_consistent :: "(pyval \<Rightarrow> string) \<Rightarrow> entry \<Rightarrow> bool" where
  "self_consistent so e = (hash e = Some (expected_hash so e))"

definition range_record :: "(pyval \<Rightarrow> string) \<Rightarrow> entry \<Rightarrow> range_corruption" where
  "range_record so e = RangeMismatch (entry_id e) (timestamp e) (expected_hash so e) (hash e)"

definition range_spec ::
  "(pyval \<Rightarrow> string) \<Rightarrow> (string \<Rightarrow> int option) \<Rightarrow> int \<Rightarrow> int \<Rightarrow> string option \<Rightarrow> entry list
     \<Rightarrow> range_result" where
  "range_spec so parse start_date end_date decision_type es =
     (let matching = filter (in_window parse start_date end_date decision_type) es;
          bad = filter (\<lambda>e. \<not> self_consistent so e) matching
      in \<lparr>range_valid = (bad = []),
          range_entries_count = length matching,
          range_integrity_score = 1 - of_nat (length bad) / of_nat (max (length matching) 1),
          range_corrupted_entries = map (range_record so) bad\<rparr>)"

text \<open>
  Sample entries whose stored hash is the recomputed one, a ledger of two such entries
  that are not linked, and a \<^verbatim>\<open>fromisoformat\<close> for the sample timestamps.
\<close>

definition seal :: "(pyval \<Rightarrow> string) \<Rightarrow> entry \<Rightarrow> entry" where
  "seal so e = e\<lparr>hash := Some (expected_hash so e)\<rparr>"

definition sample_entry :: "char \<Rightarrow> string option \<Rightarrow> entry" where
  "sample_entry c prev =
     seal str_stub
       \<lparr>entry_id = generate_entry_id str_stub (sample_env c) (sample_payload c),
        data = sample_payload c, timestamp = now_iso (sample_env c),
        timestamp_hijri = hijri_date (sample_env c), previous_hash = prev, hash = None,
        chain_position = int (of_char c) - 48, retention_until = retention_iso (sample_env c)\<rparr>"

definition sample_unlinked :: ledger where
  "sample_unlinked =
     new_ledger\<lparr>chain := [sample_entry CHR ''0'' (Some genesis_hash),
                           sample_entry CHR ''1'' (Some ''0000'')]\<rparr>"

definition sample_parse :: "string \<Rightarrow> int option" where
  "sample_parse s =
     (if length s = 26 \<and> take 25 s = ''2024-01-15T10:30:00.12345''
      then Some (int (of_char (last s)) - 48) else None)"

text \<open>
  A sample backup store: one daily backup whose manifest lists the chain file, which is
  missing from the backup directory.
\<close>

definition sample_backup_system :: backup_system where
  "sample_backup_system = \<lparr>primary_data_dir = [''audit_data''], backup_base_dir = [''backup_storage'']\<rparr>"

definition sample_manifest :: pyval where
  "sample_manifest =
     PDict [(''backup_id'', PStr ''backup_20240115_103000''),
            (''start_time'', PStr ''2024-01-15T10:30:00.123450''),
            (''files_backed_up'',
               PList [PDict [(''original_filename'', PStr ''audit_chain.pkl.gz''),
                             (''backup_filename'', PStr ''audit_chain.pkl.gz''),
                             (''file_size'', PInt 2048), (''compressed'', PBool True),
                             (''file_type'', PStr ''audit_chain'')]])]"

definition sample_backup_fs :: fs where
  "sample_backup_fs =
     [([''audit_data''], Dir),
      ([''backup_storage''], Dir),
      ([''backup_storage'', ''daily''], Dir),
      ([''backup_storage'', ''monthly''], Dir),
      ([''backup_storage'', ''yearly''], Dir),
      ([''backup_storage'', ''daily'', ''backup_20240115_103000''], Dir),
      ([''backup_storage'', ''daily'', ''backup_20240115_103000'', ''backup_manifest.json''],
         File ''manifest'')]"

definition sample_json_load :: "string \<Rightarrow> pyval option" where
  "sample_json_load b = (if b = ''manifest'' then Some sample_manifest else None)"

definition sample_gunzip :: "string \<Rightarrow> string option" where
  "sample_gunzip b = (if take 2 b = ''gz'' then Some (drop 2 b) else None)"

text \<open>
  A sample recovery: a recovery point with a saved chain, an empty \<^verbatim>\<open>config\<close> and an
  empty \<^verbatim>\<open>user_data\<close> directory and a metadata file that carries the right checksum; a
  data directory with a current chain; no \<^verbatim>\<open>config.json\<close> and no \<^verbatim>\<open>settings.ini\<close> beside
  the data directory; a backup system whose pre-recovery backup succeeds.
  \<open>sample_restored_fs\<close> is the state of the files after the three restore steps.
\<close>

definition sample_recovery_system :: recovery_system where
  "sample_recovery_system = \<lparr>dr_primary_data_dir = [''audit_data''], recovery_dir = [''disaster_recovery'']\<rparr>"

definition sample_recovery_fs :: fs where
  "sample_recovery_fs =
     [([''audit_data''], Dir),
      ([''audit_data'', ''audit_chain.pkl.gz''], File ''current chain''),
      ([''disaster_recovery''], Dir),
      ([''disaster_recovery'', ''RP_20240115_103000''], Dir),
      ([''disaster_recovery'', ''RP_20240115_103000'', ''audit_chain_backup.pkl.gz''], File ''saved chain''),
      ([''disaster_recovery'', ''RP_20240115_103000'', ''config''], Dir),
      ([''disaster_recovery'', ''RP_20240115_103000'', ''user_data''], Dir),
      ([''disaster_recovery'', ''RP_20240115_103000'', ''recovery_metadata.json''], File ''metadata'')]"

definition sample_metadata :: pyval where
  "sample_metadata =
     PDict [(''recovery_point_id'', PStr ''RP_20240115_103000''),
            (''checksum'', PStr (calculate_recovery_point_checksum sample_recovery_fs
                                   [''disaster_recovery'', ''RP_20240115_103000'']))]"

definition sample_metadata_load :: "string \<Rightarrow> pyval option" where
  "sample_metadata_load b = (if b = ''metadata'' then Some sample_metadata else None)"

definition sample_json_dump :: "pyval \<Rightarrow> string" where
  "sample_json_dump v = ''log document''"

definition sample_create_backup :: "fs \<Rightarrow> (string + string) \<times> fs" where
  "sample_create_backup fs = (Inr ''backup_20240116_090000'', fs)"

definition sample_recovery_env :: recovery_env where
  "sample_recovery_env =
     \<lparr>start_stamp = ''20240116_090000'', chain_backup_stamp = ''20240116_090001'',
      log_date = ''20240116'', log_date_iso = ''2024-01-16'', duration_seconds = 2\<rparr>"

definition sample_idle :: dr_state where
  "sample_idle = \<lparr>recovery_in_progress = False, recovery_history = []\<rparr>"

definition sample_restored_fs :: fs where
  "sample_restored_fs =
     [([''audit_data''], Dir),
      ([''audit_data'', ''audit_chain.pkl.gz''], File ''saved chain''),
      ([''disaster_recovery''], Dir),
      ([''disaster_recovery'', ''RP_20240115_103000''], Dir),
      ([''disaster_recovery'', ''RP_20240115_103000'', ''audit_chain_backup.pkl.gz''], File ''saved chain''),
      ([''disaster_recovery'', ''RP_20240115_103000'', ''config''], Dir),
      ([''disaster_recovery'', ''RP_20240115_103000'', ''user_data''], Dir),
      ([''disaster_recovery'', ''RP_20240115_103000'', ''recovery_metadata.json''], File ''metadata''),
      ([''audit_data'', ''audit_chain_pre_recovery_20240116_090001.pkl.gz''], File ''current chain'')]"

section \<open>Serialisation and append: basic facts\<close>

lemma those_list_None: "those_list xs = None \<longleftrightarrow> None \<in> set xs"
  by (induction xs rule: those_list.induct) (auto split: option.splits)

lemma those_list_map_Some: "those_list (map Some ys) = Some ys"
  by (induction ys) auto

lemma those_list_Some: "those_list xs = Some ys \<longleftrightarrow> xs = map Some ys"
proof
  show "those_list xs = Some ys \<Longrightarrow> xs = map Some ys"
    by (induction xs arbitrary: ys rule: those_list.induct) (auto split: option.splits)
qed (simp add: those_list_map_Some)

lemma dumps_dict_None:
  "dumps so (PDict kvs) = None \<longleftrightarrow> (\<exists>kv\<in>set kvs. dumps so (snd kv) = None)"
proof -
  have "those_list (map (\<lambda>kv. map_option (Pair (fst kv)) (dumps so (snd kv))) kvs) = None
          \<longleftrightarrow> (\<exists>kv\<in>set kvs. dumps so (snd kv) = None)"
    (is "?t = None \<longleftrightarrow> ?r")
    unfolding those_list_None by (auto simp: image_iff)
  then have h: "?r \<longleftrightarrow> ?t = None" by simp
  show ?thesis unfolding h by (cases ?t) simp_all
qed

declare dumps.simps(6,7) [simp del]

lemma dumps_opt_str: "dumps so (opt_str h) \<noteq> None"
  by (cases h) (simp_all add: opt_str_def)

lemma dumps_entry_None:
  "dumps so (PDict (entry_dict e)) = None \<longleftrightarrow> dumps so (PDict (data e)) = None"
  unfolding dumps_dict_None[of so "entry_dict e"]
  by (simp add: entry_dict_def dumps_opt_str)

lemma dumps_entry_del_None:
  "dumps so (PDict (dict_del (entry_dict e) ''hash'')) = None \<longleftrightarrow> dumps so (PDict (data e)) = None"
  unfolding dumps_dict_None[of so "dict_del (entry_dict e) ''hash''"]
  by (simp add: entry_dict_def dict_del_def dumps_opt_str)

lemma append_entry_fails:
  assumes "dumps so (PDict entry_data) = None"
  shows "append_entry so env entry_data L = (Inl (AppendFailed TypeError), L)"
proof -
  let ?e = "\<lparr>entry_id = generate_entry_id so env entry_data, data = entry_data,
            timestamp = now_iso env, timestamp_hijri = hijri_date env,
            previous_hash = get_latest_hash L, hash = None,
            chain_position = int (length (chain L)), retention_until = retention_iso env\<rparr>"
  have "dumps so (PDict (entry_dict ?e)) = None"
    using assms by (simp add: dumps_entry_None)
  then show ?thesis
    by (simp add: append_entry_def calculate_hash_def Let_def)
qed


lemma append_entry_ok:
  assumes "dumps so (PDict entry_data) \<noteq> None"
  shows "append_entry so env entry_data L =
           (Inr (generate_entry_id so env entry_data),
            L\<lparr>chain := chain L @ [(new_entry so env entry_data L)
                          \<lparr>hash := Some (sha256 (the (dumps so (PDict (entry_dict (new_entry so env entry_data L))))))\<rparr>],
              chain_index := (chain_index L)(generate_entry_id so env entry_data \<mapsto> length (chain L))\<rparr>)"
proof -
  have "dumps so (PDict (entry_dict (new_entry so env entry_data L))) \<noteq> None"
    using assms by (simp add: dumps_entry_None new_entry_def)
  then obtain t where "dumps so (PDict (entry_dict (new_entry so env entry_data L))) = Some t"
    by blast
  then show ?thesis
    by (simp add: append_entry_def calculate_hash_def Let_def new_entry_def)
qed

lemma append_entry_chain:
  "chain (snd (append_entry so env d L)) =
     (if dumps so (PDict d) = None then chain L
      else chain L @ [(new_entry so env d L)
             \<lparr>hash := Some (sha256 (the (dumps so (PDict (entry_dict (new_entry so env d L))))))\<rparr>])"
  by (simp add: append_entry_fails append_entry_ok)

lemma sample_payload_ok: "dumps so (PDict (sample_payload c)) \<noteq> None"
  by (simp add: dumps_dict_None sample_payload_def)

text \<open>The test vector of FIPS 180-4 for the one-block message \<^verbatim>\<open>abc\<close>.\<close>

lemma replicate_numeral: "replicate (numeral k) x = x # replicate (pred_numeral k) x"
  by (simp add: numeral_eq_Suc)

lemma sha256_abc:
  "sha256 ''abc'' = ''ba7816bf8f01cfea414140de5dae2223b00361a396177a9cb410ff61f20015ad''"
  by (simp add: sha256_def pad_def be_bytes8_def compress_def K256_def H256_def hex_word_def
        digit_char_def add32_def Ch_def Maj_def bsig0_def bsig1_def ssig0_def ssig1_def rotr_def
        shr_def Let_def replicate_numeral)

lemma length_sha_round: "length s = 8 \<Longrightarrow> length (sha_round s kw) = 8"
proof -
  assume "length s = 8"
  then obtain a b c d e f g h where "s = [a, b, c, d, e, f, g, h]"
    by (auto simp: length_Suc_conv numeral_eq_Suc)
  then show ?thesis by (cases kw) (simp add: Let_def)
qed

lemma length_foldl_sha_round: "length s = 8 \<Longrightarrow> length (foldl sha_round s kws) = 8"
  by (induction kws arbitrary: s) (simp_all add: length_sha_round)

lemma length_compress: "length hs = 8 \<Longrightarrow> length (compress hs block) = 8"
  by (simp add: compress_def length_foldl_sha_round)

lemma length_foldl_compress: "length hs = 8 \<Longrightarrow> length (foldl compress hs bs) = 8"
  by (induction bs arbitrary: hs) (simp_all add: length_compress)

lemma length_concat_hex: "length (concat (map hex_word ws)) = 8 * length ws"
  by (induction ws) (simp_all add: hex_word_def)

lemma length_sha256: "length (sha256 s) = 64"
  by (simp add: sha256_def length_concat_hex length_foldl_compress H256_def)

lemma sha256_neq_short: "length t \<noteq> 64 \<Longrightarrow> sha256 s \<noteq> t"
  using length_sha256 by blast

lemma dict_get_entry_hash: "dict_get (entry_dict e) ''hash'' \<noteq> None"
  by (simp add: dict_get_def entry_dict_def)

lemma calculate_hash_entry:
  assumes "dumps so (PDict (data e)) \<noteq> None"
  shows "calculate_hash so (entry_dict e) True = Inr (expected_hash so e)"
proof -
  have "dumps so (PDict (dict_del (entry_dict e) ''hash'')) \<noteq> None"
    using assms by (simp add: dumps_entry_del_None)
  then show ?thesis
    by (auto simp: calculate_hash_def dict_get_entry_hash expected_hash_def)
qed

lemma calculate_hash_entry_fail:
  assumes "dumps so (PDict (data e)) = None"
  shows "calculate_hash so (entry_dict e) True = Inl TypeError"
proof -
  have "dumps so (PDict (dict_del (entry_dict e) ''hash'')) = None"
    using assms by (simp add: dumps_entry_del_None)
  then show ?thesis
    by (simp add: calculate_hash_def dict_get_entry_hash)
qed

lemma verify_loop_done:
  assumes "\<forall>e\<in>set es. dumps so (PDict (data e)) \<noteq> None"
      and "\<forall>i. el i \<le> max_verification_time_ms"
  shows "verify_loop so el i prev es acc = LoopDone (acc @ all_records so i prev es)"
  using assms
proof (induction es arbitrary: i prev acc)
  case Nil
  then show ?case by simp
next
  case (Cons e es)
  have el: "\<not> el i > max_verification_time_ms"
    using Cons.prems(2) by (simp add: not_less)
  have ch: "calculate_hash so (entry_dict e) True = Inr (expected_hash so e)"
    using Cons.prems(1) by (simp add: calculate_hash_entry)
  show ?case
    using Cons.IH[of "Suc i" "Some e"] Cons.prems el
    by (simp add: ch Let_def entry_records_def split: option.splits)
qed

section \<open>The ledger: claims\<close>

lemma linked_snoc:
  "linked h (es @ [e]) \<longleftrightarrow> linked h es \<and> previous_hash e = (if es = [] then h else hash (last es))"
  by (induction es arbitrary: h) auto

lemma linked_nth:
  "linked h es \<Longrightarrow> i < length es \<Longrightarrow>
     previous_hash (es ! i) = (if i = 0 then h else hash (es ! (i - 1)))"
proof (induction es arbitrary: h i)
  case Nil
  then show ?case by simp
next
  case (Cons e es)
  then show ?case by (cases i) (auto simp: nth_Cons')
qed

lemma append_entry_linked:
  assumes "linked (Some genesis_hash) (chain L)"
  shows "linked (Some genesis_hash) (chain (snd (append_entry so env d L)))"
  using assms by (simp add: append_entry_chain linked_snoc new_entry_def get_latest_hash_def)

lemma append_all_linked:
  "linked (Some genesis_hash) (chain L) \<Longrightarrow> linked (Some genesis_hash) (chain (append_all so cs L))"
  by (induction cs arbitrary: L) (simp_all add: append_entry_linked)

text \<open>
  Claim C5. In every chain that successive \<^verbatim>\<open>append_entry\<close> calls build from a fresh
  ledger, each entry at a position \<open>i > 0\<close> stores as \<^verbatim>\<open>previous_hash\<close> the \<^verbatim>\<open>hash\<close> of
  the entry at \<open>i - 1\<close>, and the first entry stores the genesis sentinel.
\<close>

theorem C5_link_invariant:
  "(\<forall>i. 0 < i \<and> i < length (chain (append_all so calls new_ledger)) \<longrightarrow>
        previous_hash (chain (append_all so calls new_ledger) ! i)
          = hash (chain (append_all so calls new_ledger) ! (i - 1)))
   \<and> (chain (append_all so calls new_ledger) \<noteq> [] \<longrightarrow>
        previous_hash (chain (append_all so calls new_ledger) ! 0) = Some genesis_hash)"
proof -
  have "linked (Some genesis_hash) (chain (append_all so calls new_ledger))"
    by (rule append_all_linked) (simp add: new_ledger_def)
  then show ?thesis
    using linked_nth[of "Some genesis_hash" "chain (append_all so calls new_ledger)"] by auto
qed

lemma length_append_all_sample:
  "length (chain (append_all so (map sample_call cs) L)) = length (chain L) + length cs"
  by (induction cs arbitrary: L) (simp_all add: append_entry_chain sample_payload_ok sample_call_def)

theorem C5_link_invariant_witness:
  "0 < (1::nat) \<and> 1 < length (chain (append_all str_stub (map sample_call ''01'') new_ledger))
   \<and> previous_hash (chain (append_all str_stub (map sample_call ''01'') new_ledger) ! 1)
       = hash (chain (append_all str_stub (map sample_call ''01'') new_ledger) ! (1 - 1))
   \<and> chain (append_all str_stub (map sample_call ''01'') new_ledger) \<noteq> []
   \<and> previous_hash (chain (append_all str_stub (map sample_call ''01'') new_ledger) ! 0) = Some genesis_hash"
proof -
  have len: "length (chain (append_all str_stub (map sample_call ''01'') new_ledger)) = 2"
    unfolding length_append_all_sample by (simp add: new_ledger_def)
  then have ne: "chain (append_all str_stub (map sample_call ''01'') new_ledger) \<noteq> []"
    by auto
  show ?thesis
    using C5_link_invariant[of str_stub "map sample_call ''01''"] len ne by simp
qed

text \<open>
  Claim C6. When the payload cannot be serialised by \<^verbatim>\<open>json.dumps\<close>, \<^verbatim>\<open>append_entry\<close>
  raises (the \<^verbatim>\<open>TypeError\<close> of the serialiser, wrapped in the generic append failure)
  and the ledger state, chain and id index included, is exactly the state before the call.
\<close>

theorem C6_unserialisable_payload_rejected:
  assumes "dumps so (PDict entry_data) = None"
  shows "append_entry so env entry_data L = (Inl (AppendFailed TypeError), L)"
  using assms by (rule append_entry_fails)

theorem C6_unserialisable_payload_rejected_witness:
  "dumps str_stub (PDict [(''attachment'', PObject 0)]) = None
   \<and> append_entry str_stub (sample_env CHR ''0'') [(''attachment'', PObject 0)] new_ledger
       = (Inl (AppendFailed TypeError), new_ledger)"
proof -
  have h: "dumps str_stub (PDict [(''attachment'', PObject 0)]) = None"
    by (simp add: dumps_dict_None)
  show ?thesis
    using h C6_unserialisable_payload_rejected[OF h, of "sample_env CHR ''0''" new_ledger] by simp
qed

text \<open>
  Claim C10. For every \<^verbatim>\<open>bias_result\<close> without the key \<^verbatim>\<open>confidence\<close>,
  \<^verbatim>\<open>log_bias_alert\<close> raises \<^verbatim>\<open>KeyError\<close> before anything is appended: the ledger state
  is the state before the call.
\<close>

theorem C10_missing_confidence_raises:
  assumes "dict_get bias_result ''confidence'' = None"
  shows "log_bias_alert so aenv related bias_result L = (Inl (KeyError ''confidence''), L)"
  using assms by (simp add: log_bias_alert_def)

theorem C10_missing_confidence_raises_witness:
  "dict_get [(''bias_type'', PStr ''regional'')] ''confidence'' = None
   \<and> log_bias_alert str_stub
        \<lparr>alert_stamp = ''20240115_103000'', alert_iso = ''2024-01-15T10:30:00.123457'',
         alert_append = sample_env CHR ''0''\<rparr>
        ''procurement_1234567890_20240115_103000_123450'' [(''bias_type'', PStr ''regional'')] new_ledger
       = (Inl (KeyError ''confidence''), new_ledger)"
proof -
  have h: "dict_get [(''bias_type'', PStr ''regional'')] ''confidence'' = None"
    by (simp add: dict_get_def)
  show ?thesis
    using h C10_missing_confidence_raises[OF h] by simp
qed

section \<open>Verification of a tampered chain\<close>

lemma verify_chain_integrity_done:
  assumes "chain L \<noteq> []"
      and "\<forall>e\<in>set (chain L). dumps so (PDict (data e)) \<noteq> None"
      and "\<forall>i. elapsed_ms venv i \<le> max_verification_time_ms"
  shows "verify_chain_integrity so venv L =
           (if all_records so 0 None (chain L) = []
            then (Verified True (length (chain L)) 1 [], L)
            else if report_write_ok venv
            then (Verified False (length (chain L))
                    (1 - of_nat (length (all_records so 0 None (chain L))) / of_nat (length (chain L)))
                    (all_records so 0 None (chain L)),
                  L\<lparr>corruption_files := corruption_files L @
                       [(''corruption_report_'' @ report_stamp venv @ ''.json'',
                         \<lparr>detected_at = report_stamp venv,
                          corrupted_count = length (all_records so 0 None (chain L)),
                          total_entries = length (chain L),
                          corruption_entries = all_records so 0 None (chain L)\<rparr>)],
                     corruption_checks_enabled := False\<rparr>)
            else (VerifyError OSError, L))"
  using assms
  by (simp add: verify_chain_integrity_def verify_loop_done handle_corruption_def Let_def)

lemma entry_dict_del_hash_update:
  "dict_del (entry_dict (e\<lparr>hash := h\<rparr>)) ''hash'' = dict_del (entry_dict e) ''hash''"
  by (simp add: entry_dict_def dict_del_def)

lemma expected_hash_update [simp]: "expected_hash so (e\<lparr>hash := h\<rparr>) = expected_hash so e"
  by (simp add: expected_hash_def entry_dict_del_hash_update)

lemma append_entry_serialisable:
  assumes "\<forall>e\<in>set (chain L). dumps so (PDict (data e)) \<noteq> None"
  shows "\<forall>e\<in>set (chain (snd (append_entry so env d L))). dumps so (PDict (data e)) \<noteq> None"
  using assms by (auto simp: append_entry_chain new_entry_def)

lemma append_all_serialisable:
  "\<forall>e\<in>set (chain L). dumps so (PDict (data e)) \<noteq> None \<Longrightarrow>
   \<forall>e\<in>set (chain (append_all so cs L)). dumps so (PDict (data e)) \<noteq> None"
proof (induction cs arbitrary: L)
  case Nil
  then show ?case by simp
next
  case (Cons c cs)
  show ?case
    using Cons.IH[OF append_entry_serialisable[OF Cons.prems]] by simp
qed

lemma length_append_all:
  "\<forall>c\<in>set cs. dumps so (PDict (snd c)) \<noteq> None \<Longrightarrow>
   length (chain (append_all so cs L)) = length (chain L) + length cs"
  by (induction cs arbitrary: L) (simp_all add: append_entry_chain)

lemma tampered_chain_verification:
  assumes len: "length calls = 5"
      and ok: "\<forall>c\<in>set calls. dumps so (PDict (snd c)) \<noteq> None"
      and h1: "h' \<noteq> hash (chain (append_all so calls new_ledger) ! 2)"
      and h2: "h' \<noteq> Some (expected_hash so (chain (append_all so calls new_ledger) ! 2))"
      and el: "\<forall>i. elapsed_ms venv i \<le> max_verification_time_ms"
      and wr: "report_write_ok venv"
  shows "\<exists>s cs. fst (verify_chain_integrity so venv (tamper 2 h' (append_all so calls new_ledger)))
                   = Verified False 5 s cs
           \<and> HashMismatch 2 (entry_id (chain (append_all so calls new_ledger) ! 2))
                (expected_hash so (chain (append_all so calls new_ledger) ! 2)) h' \<in> set cs
           \<and> LinkBroken 3 (entry_id (chain (append_all so calls new_ledger) ! 3)) \<in> set cs
           \<and> 2 \<le> length cs \<and> s \<le> 3 / 5"
proof -
  let ?L = "append_all so calls new_ledger"
  have l5: "length (chain ?L) = 5"
    using length_append_all[OF ok, of new_ledger] len by (simp add: new_ledger_def)
  then obtain e0 e1 e2 e3 e4 where es: "chain ?L = [e0, e1, e2, e3, e4]"
    by (auto simp: length_Suc_conv numeral_eq_Suc)
  have lk: "linked (Some genesis_hash) (chain ?L)"
    by (rule append_all_linked) (simp add: new_ledger_def)
  have ser: "\<forall>e\<in>set (chain ?L). dumps so (PDict (data e)) \<noteq> None"
    by (rule append_all_serialisable) (simp add: new_ledger_def)
  have p3: "previous_hash e3 = hash e2"
    using lk es by simp
  let ?T = "tamper 2 h' ?L"
  have ct: "chain ?T = [e0, e1, e2\<lparr>hash := h'\<rparr>, e3, e4]"
    by (simp add: tamper_def es)
  have ser': "\<forall>e\<in>set (chain ?T). dumps so (PDict (data e)) \<noteq> None"
    using ser by (simp add: ct es)
  let ?cs = "all_records so 0 None (chain ?T)"
  have h1': "h' \<noteq> hash e2" using h1 by (simp add: es)
  have h2': "h' \<noteq> Some (expected_hash so e2)" using h2 by (simp add: es)
  have m2: "HashMismatch 2 (entry_id e2) (expected_hash so e2) h' \<in> set ?cs"
    unfolding ct using h2' by (simp add: entry_records_def numeral_2_eq_2)
  have m3: "LinkBroken 3 (entry_id e3) \<in> set ?cs"
    unfolding ct using h1' p3 by (simp add: entry_records_def numeral_3_eq_3)
  have "card {HashMismatch 2 (entry_id e2) (expected_hash so e2) h', LinkBroken 3 (entry_id e3)} \<le> card (set ?cs)"
    using m2 m3 by (intro card_mono) auto
  then have "2 \<le> card (set ?cs)" by simp
  then have l2: "2 \<le> length ?cs"
    using card_length[of ?cs] by linarith
  then have ne: "?cs \<noteq> []" by auto
  have v: "verify_chain_integrity so venv ?T =
          (Verified False 5 (1 - of_nat (length ?cs) / of_nat 5) ?cs,
           ?T\<lparr>corruption_files := corruption_files ?T @
                 [(''corruption_report_'' @ report_stamp venv @ ''.json'',
                   \<lparr>detected_at = report_stamp venv, corrupted_count = length ?cs,
                    total_entries = 5, corruption_entries = ?cs\<rparr>)],
               corruption_checks_enabled := False\<rparr>)"
    using verify_chain_integrity_done[of ?T so venv] ser' el wr ne ct by simp
  have sc: "(1::rat) - of_nat (length ?cs) / of_nat 5 \<le> 3 / 5"
  proof -
    have "(2::rat) \<le> of_nat (length ?cs)" using l2 by (metis of_nat_le_iff of_nat_numeral)
    then show ?thesis by simp
  qed
  show ?thesis
    using v m2 m3 l2 sc by (simp add: es)
qed

lemma append_entry_hash_sha:
  assumes "\<forall>e\<in>set (chain L). \<exists>t. hash e = Some (sha256 t)"
  shows "\<forall>e\<in>set (chain (snd (append_entry so env d L))). \<exists>t. hash e = Some (sha256 t)"
  using assms by (auto simp: append_entry_chain)

lemma append_all_hash_sha:
  "\<forall>e\<in>set (chain L). \<exists>t. hash e = Some (sha256 t) \<Longrightarrow>
   \<forall>e\<in>set (chain (append_all so cs L)). \<exists>t. hash e = Some (sha256 t)"
proof (induction cs arbitrary: L)
  case Nil
  then show ?case by simp
next
  case (Cons c cs)
  show ?case
    using Cons.IH[OF append_entry_hash_sha[OF Cons.prems]] by simp
qed

lemma sample_calls_ok: "\<forall>c\<in>set (map sample_call cs). dumps so (PDict (snd c)) \<noteq> None"
  using sample_payload_ok by (auto simp: sample_call_def)

lemma sample_chain_hash_neq:
  assumes "i < length cs" and "length t \<noteq> 64"
  shows "Some t \<noteq> hash (chain (append_all so (map sample_call cs) new_ledger) ! i)"
proof -
  let ?L = "append_all so (map sample_call cs) new_ledger"
  have "length (chain ?L) = length cs"
    using length_append_all[OF sample_calls_ok, of so cs new_ledger] by (simp add: new_ledger_def)
  then have "chain ?L ! i \<in> set (chain ?L)" using assms(1) by simp
  moreover have "\<forall>e\<in>set (chain ?L). \<exists>t. hash e = Some (sha256 t)"
    by (rule append_all_hash_sha) (simp add: new_ledger_def)
  ultimately obtain u where "hash (chain ?L ! i) = Some (sha256 u)" by blast
  then show ?thesis using assms(2) length_sha256[of u] by auto
qed

lemma expected_hash_neq: "length t \<noteq> 64 \<Longrightarrow> Some t \<noteq> Some (expected_hash so e)"
  using length_sha256 by (auto simp: expected_hash_def)

lemma sample_venv_fast: "\<forall>i. elapsed_ms sample_venv i \<le> max_verification_time_ms"
  by (simp add: sample_venv_def max_verification_time_ms_def)

text \<open>
  Claim C3, as amended. Take a chain of five entries built by \<^verbatim>\<open>append_entry\<close> and replace
  the stored \<^verbatim>\<open>hash\<close> of the entry at index 2 by a value that is neither the old stored
  hash nor the hash recomputed for that entry. A verification that runs within its time
  limit and can write its report returns \<^verbatim>\<open>valid = False\<close> for five entries, with a
  hash-mismatch record at position 2 and a broken-link record at position 3 (entry 3
  still points to the old hash): at least two records, so \<^verbatim>\<open>integrity_score\<close> is at most
  \<open>0.6\<close>.
\<close>

theorem C3_tampered_hash_detected:
  assumes "length calls = 5"
      and "\<forall>c\<in>set calls. dumps so (PDict (snd c)) \<noteq> None"
      and "h' \<noteq> hash (chain (append_all so calls new_ledger) ! 2)"
      and "h' \<noteq> Some (expected_hash so (chain (append_all so calls new_ledger) ! 2))"
      and "\<forall>i. elapsed_ms venv i \<le> max_verification_time_ms"
      and "report_write_ok venv"
  shows "\<exists>s cs. fst (verify_chain_integrity so venv (tamper 2 h' (append_all so calls new_ledger)))
                   = Verified False 5 s cs
           \<and> HashMismatch 2 (entry_id (chain (append_all so calls new_ledger) ! 2))
                (expected_hash so (chain (append_all so calls new_ledger) ! 2)) h' \<in> set cs
           \<and> LinkBroken 3 (entry_id (chain (append_all so calls new_ledger) ! 3)) \<in> set cs
           \<and> 2 \<le> length cs \<and> s \<le> 3 / 5"
  using assms by (rule tampered_chain_verification)

theorem C3_tampered_hash_detected_witness:
  "(case fst (verify_chain_integrity str_stub sample_venv
       (tamper 2 (Some ''tampered'') (append_all str_stub (map sample_call ''01234'') new_ledger))) of
      Verified b n s cs \<Rightarrow> \<not> b \<and> n = 5 \<and> 2 \<le> length cs \<and> s \<le> 3 / 5
    | VerifyTimeout n \<Rightarrow> False
    | VerifyError x \<Rightarrow> False)"
proof -
  have a: "length (map sample_call ''01234'') = 5" by simp
  have b: "Some ''tampered'' \<noteq> hash (chain (append_all str_stub (map sample_call ''01234'') new_ledger) ! 2)"
    by (rule sample_chain_hash_neq) simp_all
  have c: "Some ''tampered'' \<noteq>
      Some (expected_hash str_stub (chain (append_all str_stub (map sample_call ''01234'') new_ledger) ! 2))"
    by (rule expected_hash_neq) simp
  have d: "report_write_ok sample_venv" by (simp add: sample_venv_def)
  obtain s cs where
    "fst (verify_chain_integrity str_stub sample_venv
       (tamper 2 (Some ''tampered'') (append_all str_stub (map sample_call ''01234'') new_ledger)))
     = Verified False 5 s cs" "2 \<le> length cs" "s \<le> 3 / 5"
    using C3_tampered_hash_detected[OF a sample_calls_ok b c sample_venv_fast d] by blast
  then show ?thesis by simp
qed

text \<open>
  Claim C3 as stated fails: on the scenario of the specification the score is not \<open>0.8\<close>.
\<close>

theorem C3_score_is_not_0_8:
  "integrity_score (fst (verify_chain_integrity str_stub sample_venv
       (tamper 2 (Some ''tampered'') (append_all str_stub (map sample_call ''01234'') new_ledger))))
   \<noteq> Some (4 / 5)"
proof -
  have a: "length (map sample_call ''01234'') = 5" by simp
  have b: "Some ''tampered'' \<noteq> hash (chain (append_all str_stub (map sample_call ''01234'') new_ledger) ! 2)"
    by (rule sample_chain_hash_neq) simp_all
  have c: "Some ''tampered'' \<noteq>
      Some (expected_hash str_stub (chain (append_all str_stub (map sample_call ''01234'') new_ledger) ! 2))"
    by (rule expected_hash_neq) simp
  have d: "report_write_ok sample_venv" by (simp add: sample_venv_def)
  obtain s cs where
    "fst (verify_chain_integrity str_stub sample_venv
       (tamper 2 (Some ''tampered'') (append_all str_stub (map sample_call ''01234'') new_ledger)))
     = Verified False 5 s cs" "s \<le> 3 / 5"
    using tampered_chain_verification[OF a sample_calls_ok b c sample_venv_fast d] by blast
  then show ?thesis by auto
qed

lemma sample_corrupted_chain:
  "chain sample_corrupted = [(new_entry str_stub (sample_env CHR ''0'') (sample_payload CHR ''0'') new_ledger)
       \<lparr>hash := Some ''tampered''\<rparr>]"
  by (simp add: sample_corrupted_def tamper_def sample_call_def append_entry_chain sample_payload_ok
        new_ledger_def)

lemma sample_quarantined_eq:
  "verify_chain_integrity str_stub sample_venv sample_corrupted =
     (Verified False 1 0
        [HashMismatch 0 (entry_id (hd (chain sample_corrupted)))
           (expected_hash str_stub (hd (chain sample_corrupted))) (Some ''tampered'')],
      sample_corrupted\<lparr>corruption_files :=
          [(''corruption_report_20240115_103100.json'',
            \<lparr>detected_at = ''20240115_103100'', corrupted_count = 1, total_entries = 1,
             corruption_entries =
               [HashMismatch 0 (entry_id (hd (chain sample_corrupted)))
                  (expected_hash str_stub (hd (chain sample_corrupted))) (Some ''tampered'')]\<rparr>)],
        corruption_checks_enabled := False\<rparr>)"
proof -
  have ne: "Some ''tampered'' \<noteq> Some (expected_hash str_stub e)" for e
    by (rule expected_hash_neq) simp
  have cf: "corruption_files sample_corrupted = []"
    by (simp add: sample_corrupted_def tamper_def sample_call_def append_entry_ok sample_payload_ok
        new_ledger_def)
  have ser: "\<forall>e\<in>set (chain sample_corrupted). dumps str_stub (PDict (data e)) \<noteq> None"
    by (simp add: sample_corrupted_chain new_entry_def sample_payload_ok)
  have ar: "all_records str_stub 0 None (chain sample_corrupted) =
      [HashMismatch 0 (entry_id (hd (chain sample_corrupted)))
           (expected_hash str_stub (hd (chain sample_corrupted))) (Some ''tampered'')]"
    using ne by (simp add: sample_corrupted_chain entry_records_def)
  have ne: "chain sample_corrupted \<noteq> []"
    by (simp add: sample_corrupted_chain)
  show ?thesis
    unfolding verify_chain_integrity_done[OF ne ser sample_venv_fast] ar
    by (simp add: cf sample_venv_def sample_corrupted_chain)
qed

text \<open>
  Claim C2 at a failing input. The sample ledger holds one entry whose stored hash was
  overwritten. Verification reports it invalid, writes one corruption report and clears
  \<^verbatim>\<open>_corruption_checks_enabled\<close>; the next \<^verbatim>\<open>append_entry\<close> nevertheless succeeds and
  the chain grows by one entry, because \<^verbatim>\<open>append_entry\<close> never reads the flag.
\<close>

theorem C2_append_succeeds_after_corruption:
  "\<not> valid (fst (verify_chain_integrity str_stub sample_venv sample_corrupted))
   \<and> corruption_checks_enabled sample_quarantined = False
   \<and> length (corruption_files sample_quarantined) = 1
   \<and> fst (append_entry str_stub (sample_env CHR ''1'') (sample_payload CHR ''1'') sample_quarantined)
       = Inr ''procurement_1234567891_20240115_103000_123451''
   \<and> length (chain (snd (append_entry str_stub (sample_env CHR ''1'') (sample_payload CHR ''1'')
        sample_quarantined))) = length (chain sample_quarantined) + 1"
  by (simp add: sample_quarantined_def sample_quarantined_eq append_entry_ok sample_payload_ok)
     (simp add: generate_entry_id_def sample_payload_def sample_env_def dict_get_def fmt_def)

section \<open>What append hashes and what verification hashes\<close>

lemma those_list_entry_items:
  assumes "dumps so (PDict (data e)) = Some td"
  shows "those_list (map (\<lambda>kv. map_option (Pair (fst kv)) (dumps so (snd kv))) (entry_dict e)) =
     Some [(''id'', json_string (entry_id e)), (''data'', td), (''timestamp'', json_string (timestamp e)),
           (''timestamp_hijri'', json_string (timestamp_hijri e)),
           (''previous_hash'', the (dumps so (opt_str (previous_hash e)))),
           (''hash'', the (dumps so (opt_str (hash e)))),
           (''chain_position'', show_int (chain_position e)),
           (''retention_until'', json_string (retention_until e))]"
proof -
  obtain p where p: "dumps so (opt_str (previous_hash e)) = Some p"
    using dumps_opt_str[of so "previous_hash e"] by auto
  obtain h where h: "dumps so (opt_str (hash e)) = Some h"
    using dumps_opt_str[of so "hash e"] by auto
  show ?thesis using assms by (simp add: entry_dict_def p h)
qed

lemma those_list_entry_items_del:
  assumes "dumps so (PDict (data e)) = Some td"
  shows "those_list (map (\<lambda>kv. map_option (Pair (fst kv)) (dumps so (snd kv)))
            (dict_del (entry_dict e) ''hash'')) =
     Some [(''id'', json_string (entry_id e)), (''data'', td), (''timestamp'', json_string (timestamp e)),
           (''timestamp_hijri'', json_string (timestamp_hijri e)),
           (''previous_hash'', the (dumps so (opt_str (previous_hash e)))),
           (''chain_position'', show_int (chain_position e)),
           (''retention_until'', json_string (retention_until e))]"
proof -
  obtain p where p: "dumps so (opt_str (previous_hash e)) = Some p"
    using dumps_opt_str[of so "previous_hash e"] by auto
  show ?thesis using assms by (simp add: entry_dict_def dict_del_def p)
qed

lemma json_string_keys:
  "json_string ''chain_position'' = CHR 0x22 # ''chain_position'' @ [CHR 0x22]"
  "json_string ''data'' = CHR 0x22 # ''data'' @ [CHR 0x22]"
  "json_string ''hash'' = CHR 0x22 # ''hash'' @ [CHR 0x22]"
  "json_string ''id'' = CHR 0x22 # ''id'' @ [CHR 0x22]"
  by (simp_all add: json_string_def json_escape_def)

lemma entry_texts_differ:
  assumes "dumps so (PDict (data e)) = Some td" and "hash e = None"
  shows "dumps so (PDict (entry_dict e)) \<noteq> dumps so (PDict (dict_del (entry_dict e) ''hash''))"
  using assms
  by (simp add: dumps.simps(7) those_list_entry_items those_list_entry_items_del json_string_keys
        opt_str_def)


lemma appended_entry_hash_texts:
  assumes "dumps so (PDict entry_data) \<noteq> None"
      and "e = last (chain (snd (append_entry so env entry_data L)))"
  shows "hashed_at_append so e \<noteq> hashed_at_verify so e
       \<and> hash e = Some (sha256 (hashed_at_append so e))
       \<and> calculate_hash so (entry_dict e) True = Inr (sha256 (hashed_at_verify so e))"
proof -
  let ?n = "new_entry so env entry_data L"
  obtain td where td: "dumps so (PDict (data ?n)) = Some td"
    using assms(1) by (auto simp: new_entry_def)
  have hn: "hash ?n = None" by (simp add: new_entry_def)
  have e: "e = ?n\<lparr>hash := Some (sha256 (the (dumps so (PDict (entry_dict ?n)))))\<rparr>"
    using assms by (auto simp: append_entry_chain)
  have n: "e\<lparr>hash := None\<rparr> = ?n"
    by (simp add: e new_entry_def)
  have d: "dict_del (entry_dict e) ''hash'' = dict_del (entry_dict ?n) ''hash''"
    by (simp add: e entry_dict_del_hash_update)
  have "dumps so (PDict (entry_dict ?n)) \<noteq> dumps so (PDict (dict_del (entry_dict ?n) ''hash''))"
    using td hn by (rule entry_texts_differ)
  moreover have "dumps so (PDict (entry_dict ?n)) \<noteq> None"
    using td by (simp add: dumps_entry_None)
  moreover have "dumps so (PDict (dict_del (entry_dict ?n) ''hash'')) \<noteq> None"
    using td by (simp add: dumps_entry_del_None)
  ultimately have ne: "hashed_at_append so e \<noteq> hashed_at_verify so e"
    by (auto simp: hashed_at_append_def hashed_at_verify_def n d)
  have h: "hash e = Some (sha256 (hashed_at_append so e))"
    unfolding hashed_at_append_def n by (simp add: e)
  have "dumps so (PDict (data e)) \<noteq> None"
    using td by (simp add: e new_entry_def)
  then have c: "calculate_hash so (entry_dict e) True = Inr (sha256 (hashed_at_verify so e))"
    by (simp add: calculate_hash_entry expected_hash_def hashed_at_verify_def)
  show ?thesis using ne h c by simp
qed

text \<open>
  Claim C1 fails on the code. For every entry that \<^verbatim>\<open>append_entry\<close> appends, the stored hash
  is the digest of the serialisation that still holds \<^verbatim>\<open>"hash": null\<close>, while verification
  recomputes the digest of the serialisation without that key; the two texts differ.
  The stored hash can equal the recomputed one only if SHA-256 collides on them, so a
  chain built purely by appends is reported corrupted.
\<close>

theorem C1_append_and_verify_hash_different_texts:
  assumes "dumps so (PDict entry_data) \<noteq> None"
      and "e = last (chain (snd (append_entry so env entry_data L)))"
  shows "hashed_at_append so e \<noteq> hashed_at_verify so e
       \<and> hash e = Some (sha256 (hashed_at_append so e))
       \<and> calculate_hash so (entry_dict e) True = Inr (sha256 (hashed_at_verify so e))"
  using assms by (rule appended_entry_hash_texts)

theorem C1_append_and_verify_hash_different_texts_witness:
  "dumps str_stub (PDict (sample_payload CHR ''0'')) \<noteq> None
   \<and> hashed_at_append str_stub
        (last (chain (snd (append_entry str_stub (sample_env CHR ''0'') (sample_payload CHR ''0'') new_ledger))))
     \<noteq> hashed_at_verify str_stub
        (last (chain (snd (append_entry str_stub (sample_env CHR ''0'') (sample_payload CHR ''0'') new_ledger))))
   \<and> hash (last (chain (snd (append_entry str_stub (sample_env CHR ''0'') (sample_payload CHR ''0'') new_ledger))))
     = Some (sha256 (hashed_at_append str_stub
        (last (chain (snd (append_entry str_stub (sample_env CHR ''0'') (sample_payload CHR ''0'') new_ledger))))))"
proof -
  have h: "dumps str_stub (PDict (sample_payload CHR ''0'')) \<noteq> None"
    by (rule sample_payload_ok)
  show ?thesis
    using h C1_append_and_verify_hash_different_texts[OF h refl, of "sample_env CHR ''0''" new_ledger]
    by simp
qed

section \<open>Range verification\<close>

lemma matching_loop_filter:
  assumes "\<forall>e\<in>set es. parse (timestamp e) \<noteq> None"
  shows "matching_loop parse s t dt es acc = Inr (acc @ filter (in_window parse s t dt) es)"
  using assms
proof (induction es arbitrary: acc)
  case Nil
  then show ?case by simp
next
  case (Cons e es)
  obtain d where d: "parse (timestamp e) = Some d" using Cons.prems by auto
  show ?case
    using Cons.IH Cons.prems
    by (cases dt) (auto simp: d in_window_def)
qed

lemma range_loop_filter:
  assumes "\<forall>e\<in>set es. dumps so (PDict (data e)) \<noteq> None"
  shows "range_loop so es acc =
           Inr (acc @ map (range_record so) (filter (\<lambda>e. \<not> self_consistent so e) es))"
  using assms
proof (induction es arbitrary: acc)
  case Nil
  then show ?case by simp
next
  case (Cons e es)
  have ch: "calculate_hash so (entry_dict e) True = Inr (expected_hash so e)"
    using Cons.prems by (simp add: calculate_hash_entry)
  show ?case
    using Cons.IH Cons.prems
    by (simp add: ch self_consistent_def range_record_def)
qed

lemma verify_range_spec:
  assumes "\<forall>e\<in>set (chain L). parse (timestamp e) \<noteq> None"
      and "\<forall>e\<in>set (chain L). dumps so (PDict (data e)) \<noteq> None"
  shows "verify_range so parse start_date end_date decision_type L =
           Inr (range_spec so parse start_date end_date decision_type (chain L))"
proof -
  let ?M = "filter (in_window parse start_date end_date decision_type) (chain L)"
  have m: "matching_loop parse start_date end_date decision_type (chain L) [] = Inr ?M"
    using matching_loop_filter[OF assms(1), of start_date end_date decision_type "[]"] by simp
  have "\<forall>e\<in>set ?M. dumps so (PDict (data e)) \<noteq> None"
    using assms(2) by simp
  then have r: "range_loop so ?M [] = Inr (map (range_record so) (filter (\<lambda>e. \<not> self_consistent so e) ?M))"
    using range_loop_filter[of ?M so "[]"] by simp
  show ?thesis
    by (simp add: verify_range_def m r range_spec_def Let_def)
qed


text \<open>
  Claim C9. On a chain whose timestamps parse and whose payloads serialise,
  \<^verbatim>\<open>verify_range\<close> returns exactly the result assembled from the entries in the window:
  \<^verbatim>\<open>entries_count\<close> is their number, and an entry is reported when its stored hash
  differs from its recomputed hash. No entry is compared with its predecessor.
\<close>

theorem C9_verify_range_checks_matching_entries_only:
  assumes "\<forall>e\<in>set (chain L). parse (timestamp e) \<noteq> None"
      and "\<forall>e\<in>set (chain L). dumps so (PDict (data e)) \<noteq> None"
  shows "verify_range so parse start_date end_date decision_type L =
           Inr (range_spec so parse start_date end_date decision_type (chain L))"
  using assms by (rule verify_range_spec)

lemma seal_simps:
  "entry_id (seal so e) = entry_id e"
  "timestamp (seal so e) = timestamp e"
  "data (seal so e) = data e"
  "previous_hash (seal so e) = previous_hash e"
  "hash (seal so e) = Some (expected_hash so e)"
  "expected_hash so (seal so e) = expected_hash so e"
  by (simp_all add: seal_def)

lemma sample_entry_simps:
  "timestamp (sample_entry c prev) = ''2024-01-15T10:30:00.12345'' @ [c]"
  "data (sample_entry c prev) = sample_payload c"
  "previous_hash (sample_entry c prev) = prev"
  "self_consistent str_stub (sample_entry c prev)"
  "hash (sample_entry c prev) = Some (expected_hash str_stub (sample_entry c prev))"
  by (simp_all add: sample_entry_def seal_simps sample_env_def self_consistent_def)

lemma sample_unlinked_ok:
  "\<forall>e\<in>set (chain sample_unlinked). sample_parse (timestamp e) \<noteq> None"
  "\<forall>e\<in>set (chain sample_unlinked). dumps str_stub (PDict (data e)) \<noteq> None"
  by (simp_all add: sample_unlinked_def sample_entry_simps sample_parse_def sample_payload_ok
        del: not_None_eq)

theorem C9_verify_range_checks_matching_entries_only_witness:
  "verify_range str_stub sample_parse 0 9 (Some ''procurement'') sample_unlinked =
     Inr \<lparr>range_valid = True, range_entries_count = 2, range_integrity_score = 1,
          range_corrupted_entries = []\<rparr>
   \<and> \<not> valid (fst (verify_chain_integrity str_stub sample_venv sample_unlinked))"
proof -
  have w: "in_window sample_parse 0 9 (Some ''procurement'') (sample_entry c prev) \<longleftrightarrow>
             CHR ''0'' \<le> c \<and> c \<le> CHR ''9''" for c prev
    by (auto simp: in_window_def sample_entry_simps sample_parse_def sample_payload_def dict_get_def
          less_eq_char_def)
  have r: "range_spec str_stub sample_parse 0 9 (Some ''procurement'') (chain sample_unlinked) =
      \<lparr>range_valid = True, range_entries_count = 2, range_integrity_score = 1,
       range_corrupted_entries = []\<rparr>"
    by (simp add: range_spec_def sample_unlinked_def w sample_entry_simps)
  have ne: "Some ''0000'' \<noteq> Some (expected_hash str_stub e)" for e
    by (rule expected_hash_neq) simp
  have ar: "LinkBroken 1 (entry_id (sample_entry CHR ''1'' (Some ''0000'')))
              \<in> set (all_records str_stub 0 None (chain sample_unlinked))"
    using ne by (simp add: sample_unlinked_def entry_records_def sample_entry_simps)
  have cn: "chain sample_unlinked \<noteq> []" by (simp add: sample_unlinked_def)
  have v: "\<not> valid (fst (verify_chain_integrity str_stub sample_venv sample_unlinked))"
    unfolding verify_chain_integrity_done[OF cn sample_unlinked_ok(2) sample_venv_fast]
    using ar by auto
  show ?thesis
    using C9_verify_range_checks_matching_entries_only[OF sample_unlinked_ok, of 0 9 "Some ''procurement''"] r v
    by simp
qed

section \<open>Backup restore and disaster recovery\<close>

lemma restore_not_found:
  "find_backup B fs backup_id = None \<Longrightarrow>
   restore_from_backup jl gunzip B fs backup_id rp = (Inl (ValueError ''Backup not found''), fs)"
  by (simp add: restore_from_backup_def)

lemma restore_integrity_failed:
  assumes "find_backup B fs backup_id = Some backup_dir"
      and "\<not> ver_valid (verify_backup jl fs backup_dir)"
  shows "snd (restore_from_backup jl gunzip B fs backup_id rp) = fs
       \<and> (\<exists>x. fst (restore_from_backup jl gunzip B fs backup_id rp) = Inl x)"
  using assms by (auto simp: restore_from_backup_def split: sum.splits)

text \<open>
  Claim C8. When the backup id is found in no retention tier, or the backup found fails
  \<^verbatim>\<open>_verify_backup\<close>, \<^verbatim>\<open>restore_from_backup\<close> returns a failure and has written nothing:
  the files are exactly those before the call.
\<close>

theorem C8_restore_aborts_without_writes:
  assumes "case find_backup B fs backup_id of
             None \<Rightarrow> True
           | Some backup_dir \<Rightarrow> \<not> ver_valid (verify_backup jl fs backup_dir)"
  shows "isl (fst (restore_from_backup jl gunzip B fs backup_id restore_path_arg))
       \<and> snd (restore_from_backup jl gunzip B fs backup_id restore_path_arg) = fs"
proof (cases "find_backup B fs backup_id")
  case None
  then show ?thesis by (simp add: restore_not_found)
next
  case (Some backup_dir)
  then show ?thesis
    using assms restore_integrity_failed[of B fs backup_id backup_dir jl gunzip restore_path_arg]
    by auto
qed

lemma sample_find_backup:
  "find_backup sample_backup_system sample_backup_fs ''backup_20240115_103000''
     = Some [''backup_storage'', ''daily'', ''backup_20240115_103000'']"
  "find_backup sample_backup_system sample_backup_fs ''backup_19990101_000000'' = None"
  by (simp_all add: find_backup_def sample_backup_system_def sample_backup_fs_def daily_backup_dir_def
        monthly_backup_dir_def yearly_backup_dir_def path_join_def exists_def lookup_def children_def)

lemma sample_verify_backup:
  "verify_backup sample_json_load sample_backup_fs [''backup_storage'', ''daily'', ''backup_20240115_103000'']
     = Verification False 1 [''audit_chain.pkl.gz''] []"
  by (simp add: verify_backup_def sample_backup_fs_def exists_def lookup_def load_json_def read_file_def
        sample_json_load_def sample_manifest_def dict_get_def py_iter_def subscript_def as_name_def
        path_join_def)

theorem C8_restore_aborts_without_writes_witness:
  "isl (fst (restore_from_backup sample_json_load sample_gunzip sample_backup_system sample_backup_fs
               ''backup_19990101_000000'' None))
   \<and> snd (restore_from_backup sample_json_load sample_gunzip sample_backup_system sample_backup_fs
               ''backup_19990101_000000'' None) = sample_backup_fs
   \<and> isl (fst (restore_from_backup sample_json_load sample_gunzip sample_backup_system sample_backup_fs
               ''backup_20240115_103000'' None))
   \<and> snd (restore_from_backup sample_json_load sample_gunzip sample_backup_system sample_backup_fs
               ''backup_20240115_103000'' None) = sample_backup_fs"
  using C8_restore_aborts_without_writes[where B = sample_backup_system and fs = sample_backup_fs
          and backup_id = "''backup_19990101_000000''" and jl = sample_json_load
          and gunzip = sample_gunzip and restore_path_arg = None]
        C8_restore_aborts_without_writes[where B = sample_backup_system and fs = sample_backup_fs
          and backup_id = "''backup_20240115_103000''" and jl = sample_json_load
          and gunzip = sample_gunzip and restore_path_arg = None]
  by (simp add: sample_find_backup sample_verify_backup)

text \<open>
  Claim C7. While a recovery is in progress, \<^verbatim>\<open>perform_recovery\<close> returns the
  recovery-in-progress failure at once: no step runs, and the recovery history, the
  in-progress flag and the files are unchanged.
\<close>

theorem C7_second_recovery_rejected:
  assumes "recovery_in_progress (fst st)"
  shows "perform_recovery jl jd create_backup R env recovery_point_id mode st
           = (Inr RecoveryInProgress, st)"
  using assms by (simp add: perform_recovery_def)

lemma sha256_nonempty: "sha256 s \<noteq> []"
  using length_sha256[of s] by auto

lemma checksum_nonempty: "calculate_recovery_point_checksum fs rp \<noteq> []"
  by (simp add: calculate_recovery_point_checksum_def sha256_nonempty)

lemmas fs_defs = exists_def is_dir_def is_file_def lookup_def read_file_def write_file_def put_def
  mkdir_def copy2_def iterdir_def children_def path_join_def load_json_def st_size_def

lemma sample_find_recovery_point:
  "find_recovery_point sample_recovery_system sample_recovery_fs ''RP_20240115_103000''
     = Some [''disaster_recovery'', ''RP_20240115_103000'']"
  by (simp add: find_recovery_point_def sample_recovery_system_def sample_recovery_fs_def fs_defs)

lemma sample_load_metadata:
  "load_recovery_metadata sample_metadata_load sample_recovery_fs
     [''disaster_recovery'', ''RP_20240115_103000''] = Inr sample_metadata"
  by (simp add: load_recovery_metadata_def sample_recovery_fs_def sample_metadata_load_def fs_defs)

lemma sample_integrity:
  "verify_recovery_point_integrity sample_recovery_fs
     [''disaster_recovery'', ''RP_20240115_103000''] sample_metadata"
  by (simp add: verify_recovery_point_integrity_def sample_metadata_def dict_get_def truthy_def
        checksum_nonempty)
     (simp add: sample_recovery_fs_def fs_defs)

lemma sample_restore_chain:
  "restore_audit_chain sample_recovery_system sample_recovery_env sample_recovery_fs
     [''disaster_recovery'', ''RP_20240115_103000''] = (StepOk, sample_restored_fs)"
  by (simp add: restore_audit_chain_def sample_recovery_system_def sample_recovery_env_def
        sample_recovery_fs_def sample_restored_fs_def fs_defs Let_def)

lemma sample_restore_config:
  "restore_system_config sample_recovery_system sample_restored_fs
     [''disaster_recovery'', ''RP_20240115_103000''] = (StepOk, sample_restored_fs)"
  by (simp add: restore_system_config_def sample_restored_fs_def fs_defs)

lemma sample_restore_data:
  "restore_user_data sample_recovery_system sample_restored_fs
     [''disaster_recovery'', ''RP_20240115_103000''] = (StepOk, sample_restored_fs)"
  by (simp add: restore_user_data_def sample_restored_fs_def fs_defs)

lemma sample_verification:
  "verify_recovery_success sample_recovery_system sample_restored_fs ''quick'' =
     \<lparr>overall_success = False,
      checks_performed = [(''audit_chain_exists'', True), (''config_files_exist'', False)],
      verification_mode = ''quick''\<rparr>"
  by (simp add: verify_recovery_success_def check_audit_chain_exists_def check_config_files_exist_def
        sample_recovery_system_def sample_restored_fs_def fs_defs)

lemma sample_log:
  "fst (log_recovery_operation sample_metadata_load sample_json_dump sample_recovery_system
          sample_recovery_env sample_restored_fs record) = None"
  by (simp add: log_recovery_operation_def sample_recovery_system_def sample_recovery_env_def
        sample_restored_fs_def fs_defs dict_get_def Let_def)

text \<open>
  Claim C4 at a failing input. In the sample recovery every restore step succeeds and
  the post-recovery check \<^verbatim>\<open>config_files_exist\<close> fails, so \<^verbatim>\<open>overall_success\<close> of the
  verification is \<^verbatim>\<open>False\<close>; \<^verbatim>\<open>perform_recovery\<close> still returns its success result,
  whose \<^verbatim>\<open>success\<close> field is the constant \<^verbatim>\<open>True\<close>.
\<close>

theorem C4_recovery_reports_success_despite_failed_check:
  "fst (perform_recovery sample_metadata_load sample_json_dump sample_create_backup
          sample_recovery_system sample_recovery_env ''RP_20240115_103000'' ''quick''
          (sample_idle, sample_recovery_fs))
   = Inr (RecoverySuccess ''REC_20240116_090000'' True
            \<lparr>overall_success = False,
             checks_performed = [(''audit_chain_exists'', True), (''config_files_exist'', False)],
             verification_mode = ''quick''\<rparr>
            ''backup_20240116_090000'')"
proof -
  have l: "log_recovery_operation sample_metadata_load sample_json_dump sample_recovery_system
             sample_recovery_env sample_restored_fs doc \<noteq> (Some x, fs4)" for doc x fs4
    using sample_log[of doc] by auto
  have b: "fst (recovery_body sample_metadata_load sample_json_dump sample_create_backup
             sample_recovery_system sample_recovery_env sample_recovery_fs ''RP_20240115_103000'' ''quick'')
      = Inr \<lparr>recovery_id = ''REC_20240116_090000'',
              rec_recovery_point_id = ''RP_20240115_103000'',
              sla_compliant = True,
              recovery_steps = [(''audit_chain'', StepOk), (''system_config'', StepOk), (''user_data'', StepOk)],
              rec_verification_result =
                \<lparr>overall_success = False,
                 checks_performed = [(''audit_chain_exists'', True), (''config_files_exist'', False)],
                 verification_mode = ''quick''\<rparr>,
              rec_pre_recovery_backup = ''backup_20240116_090000'',
              rec_success = False\<rparr>"
    unfolding recovery_body_def sample_find_recovery_point
    by (simp add: sample_load_metadata sample_integrity sample_create_backup_def sample_restore_chain
          sample_restore_config sample_restore_data Let_def sample_verification l
          max_recovery_time_hours_def
          split: prod.splits option.splits)
       (simp add: sample_recovery_env_def)
  show ?thesis
    using b by (auto simp: perform_recovery_def sample_idle_def split: prod.splits sum.splits)
qed

theorem C7_second_recovery_rejected_witness:
  "recovery_in_progress \<lparr>recovery_in_progress = True, recovery_history = []\<rparr>
   \<and> perform_recovery sample_metadata_load sample_json_dump sample_create_backup
        sample_recovery_system sample_recovery_env ''RP_20240115_103000'' ''quick''
        (\<lparr>recovery_in_progress = True, recovery_history = []\<rparr>, sample_recovery_fs)
      = (Inr RecoveryInProgress, \<lparr>recovery_in_progress = True, recovery_history = []\<rparr>, sample_recovery_fs)"
  using C7_second_recovery_rejected[where st = "(\<lparr>recovery_in_progress = True, recovery_history = []\<rparr>, sample_recovery_fs)"
          and jl = sample_metadata_load and jd = sample_json_dump and create_backup = sample_create_backup
          and R = sample_recovery_system and env = sample_recovery_env
          and recovery_point_id = "''RP_20240115_103000''" and mode = "''quick''"]
  by simp

end
